theory Spec2Isabelle
  imports Complex_Main "HOL-Library.List_Lexorder"
begin

section \<open>Strings, dictionaries and errors of the scraper\<close>

text \<open>
  A Python \<open>str\<close> is a sequence of Unicode code points, so it is a list of naturals here:
  \<open>len\<close> is \<open>length\<close>, and the order \<open>sorted\<close> uses on strings (code point by code
  point, a proper prefix first) is the lexicographic order on lists. ASCII literals are
  written through \<open>ascii\<close>, the others by their code points.
\<close>

type_synonym pystr = "nat list"

definition ascii :: "string \<Rightarrow> pystr" where
  "ascii s = map of_char s"

text \<open>
  A \<open>dict\<close> with string keys and string values keeps its keys in insertion order:
  assigning to a key that is present replaces the value in place, assigning to a new key
  appends the pair.
\<close>

type_synonym pydict = "(pystr \<times> pystr) list"

fun dict_set :: "pystr \<Rightarrow> pystr \<Rightarrow> pydict \<Rightarrow> pydict" where
  "dict_set k v [] = [(k, v)]"
| "dict_set k v (p # ps) = (if fst p = k then (k, v) # ps else p # dict_set k v ps)"

definition dict_get :: "pydict \<Rightarrow> pystr \<Rightarrow> pystr option" where
  "dict_get d k = map_of d k"

definition dict_get_default :: "pydict \<Rightarrow> pystr \<Rightarrow> pystr \<Rightarrow> pystr" where
  "dict_get_default d k dflt = (case dict_get d k of None \<Rightarrow> dflt | Some v \<Rightarrow> v)"

definition dict_keys :: "pydict \<Rightarrow> pystr list" where
  "dict_keys d = map fst d"

datatype py_error = KeyError | IndexError | ValueError | TypeError | AttributeError | OSError

subsection \<open>Configuration\<close>

definition retry_times :: nat where
  "retry_times = 3"

definition k_model :: pystr where
  "k_model = [0x578B, 0x53F7]"

definition k_price :: pystr where
  "k_price = [0x4EF7, 0x683C]"

definition k_energy :: pystr where
  "k_energy = [0x80FD, 0x6E90, 0x7C7B, 0x578B]"

definition k_ID :: pystr where
  "k_ID = ascii ''ID''"

definition unknown_model :: pystr where
  "unknown_model = [0x672A, 0x77E5, 0x8F66, 0x578B]"

definition n_a :: pystr where
  "n_a = ascii ''N/A''"

definition wan :: nat where
  "wan = 0x4E07"

definition e_electric :: pystr where
  "e_electric = [0x7EAF, 0x7535]"

definition e_fuel :: pystr where
  "e_fuel = [0x6C7D, 0x6CB9]"

definition e_hybrid :: pystr where
  "e_hybrid = [0x6CB9, 0x7535, 0x6DF7, 0x5408]"

definition e_plugin :: pystr where
  "e_plugin = [0x63D2, 0x7535, 0x5F0F]"

definition e_extender :: pystr where
  "e_extender = [0x589E, 0x7A0B, 0x5F0F]"

definition e_unknown :: pystr where
  "e_unknown = [0x672A, 0x77E5]"

definition ENERGY_TYPE_MAP :: "(pystr \<times> pystr list) list" where
  "ENERGY_TYPE_MAP =
     [(e_electric, [ascii ''electric_consumption'', ascii ''battery_capacity'',
                    ascii ''cltc_recharge_mileage'']),
      (e_fuel, [ascii ''engine_max_horsepower'', ascii ''fuel_consumption'',
                ascii ''displacement'']),
      (e_hybrid, [ascii ''engine_max_horsepower'', ascii ''battery_capacity'',
                  ascii ''electric_consumption'']),
      (e_plugin, [ascii ''engine_max_horsepower'', ascii ''battery_capacity'',
                  ascii ''electric_consumption'']),
      (e_extender, [ascii ''range_extender_type'', ascii ''battery_capacity'',
                    ascii ''electric_consumption''])]"

definition ENERGY_TYPES :: "(pystr \<times> pystr) list" where
  "ENERGY_TYPES =
     [(e_electric, ascii ''electric''),
      (e_fuel, ascii ''fuel''),
      (e_hybrid, ascii ''hybrid''),
      (e_plugin, ascii ''plug-in''),
      (e_extender, ascii ''range-extender''),
      (e_unknown, ascii ''unknown'')]"

definition get_energy_specific_fields :: "pystr \<Rightarrow> pystr list" where
  "get_energy_specific_fields energy_type =
     (case map_of ENERGY_TYPE_MAP energy_type of None \<Rightarrow> [] | Some fs \<Rightarrow> fs)"

subsection \<open>Regular-expression character classes\<close>

text \<open>
  Both patterns of the source are one bracket expression, and \<open>re.sub(pattern, '', s)\<close>
  then deletes every character of \<open>s\<close> that the bracket expression matches. A bracket
  expression is a list of ranges and single characters.
\<close>

datatype cls_item = Range nat nat | Single nat

fun in_item :: "nat \<Rightarrow> cls_item \<Rightarrow> bool" where
  "in_item c (Range lo hi) = (lo \<le> c \<and> c \<le> hi)"
| "in_item c (Single x) = (c = x)"

fun in_class :: "cls_item list \<Rightarrow> nat \<Rightarrow> bool" where
  "in_class [] c = False"
| "in_class (i # is) c = (in_item c i \<or> in_class is c)"

fun re_sub_del :: "(nat \<Rightarrow> bool) \<Rightarrow> pystr \<Rightarrow> pystr" where
  "re_sub_del matches [] = []"
| "re_sub_del matches (c # cs) =
     (if matches c then re_sub_del matches cs else c # re_sub_del matches cs)"

text \<open>The bracket expression of lines 72 and 89: the range U+E600..U+E6FF, then
  U+25CF (black circle), U+25CB (white circle) and U+203B (reference mark).\<close>

definition glyph_class :: "cls_item list" where
  "glyph_class = [Range 0xE600 0xE6FF, Single 0x25CF, Single 0x25CB, Single 0x203B]"

definition strip_glyphs :: "pystr \<Rightarrow> pystr" where
  "strip_glyphs s = re_sub_del (in_class glyph_class) s"

subsection \<open>Filling in the energy-specific fields (lines 92 to 97)\<close>

fun fill_fields :: "pystr list \<Rightarrow> pydict \<Rightarrow> pydict" where
  "fill_fields [] model = model"
| "fill_fields (field # fields) model =
     fill_fields fields (dict_set field (dict_get_default model field n_a) model)"

definition normalize_model :: "pydict \<Rightarrow> pydict" where
  "normalize_model model =
     (let energy_type = dict_get_default model k_energy n_a;
          specific_fields = get_energy_specific_fields energy_type
      in fill_fields specific_fields model)"

section \<open>The extractor: \<open>parse_models_config\<close>\<close>

text \<open>
  The builtins whose tables belong to the Python runtime and not to the repository are
  parameters: \<open>int(s)\<close> on a string (\<open>None\<close> when it raises \<open>ValueError\<close>),
  \<open>s.isdigit()\<close>, and the class \<open>\d\<close> of the regular-expression engine.
\<close>

record pylib =
  str_to_int :: "pystr \<Rightarrow> int option"
  str_isdigit :: "pystr \<Rightarrow> bool"
  re_digit :: "nat \<Rightarrow> bool"

text \<open>
  The parsed document is seen through the queries the extractor makes, each with the
  answer the HTML library gives:
  \<^item> \<open>table_head\<close>: \<open>None\<close> when \<open>soup.find('div', class_='table_head__FNAvn')\<close> finds
    nothing, otherwise the columns selected by
    \<open>div.table_is-head-col__1sAQG:not(:first-child)\<close>, each with the stripped text of its
    first \<open>cell_car__28WzZ\<close> element, if it has one;
  \<^item> \<open>official_price\<close>: \<open>None\<close> when there is no \<open>cell_official-price__1O2th\<close> element,
    \<open>Some None\<close> when that element has no enclosing \<open>table_row__yVX1h\<close>, otherwise the
    stripped texts of the price cells of the enclosing row;
  \<^item> \<open>table_roots\<close>: the sections \<open>div.table_root__14vH_:not(:first-child)\<close>, each the list
    of its rows \<open>div.table_row__yVX1h[data-row-anchor]\<close>.
\<close>

record attr_row =
  row_anchor :: pystr
  cell_label :: "pystr option"
  cells_normal :: "pystr list"

record soup =
  table_head :: "pystr option list option"
  official_price :: "pystr list option option"
  table_roots :: "attr_row list list"

text \<open>The columns the extractor discovers in a document: none when there is no header.\<close>

definition discovered_columns :: "soup \<Rightarrow> pystr option list" where
  "discovered_columns doc = (case table_head doc of None \<Rightarrow> [] | Some cols \<Rightarrow> cols)"

text \<open>A \<open>for\<close> loop whose body may raise: the first exception ends the loop.\<close>

fun for_each :: "('a \<Rightarrow> 's \<Rightarrow> py_error + 's) \<Rightarrow> 'a list \<Rightarrow> 's \<Rightarrow> py_error + 's" where
  "for_each body [] s = Inr s"
| "for_each body (x # xs) s =
     (case body x s of Inl e \<Rightarrow> Inl e | Inr s' \<Rightarrow> for_each body xs s')"

text \<open>\<open>models[idx][key] = value\<close>; an index out of range would raise.\<close>

definition set_item :: "pystr \<Rightarrow> pystr \<Rightarrow> nat \<Rightarrow> pydict list \<Rightarrow> py_error + pydict list" where
  "set_item key v idx models =
     (if idx < length models then Inr (models[idx := dict_set key v (models ! idx)])
      else Inl IndexError)"

definition seed_model :: pydict where
  "seed_model = [(k_model, unknown_model), (k_price, n_a)]"

definition clean_price :: "pylib \<Rightarrow> pystr \<Rightarrow> pystr" where
  "clean_price P text =
     re_sub_del (\<lambda>c. \<not> (re_digit P c \<or> c = 0x2E \<or> c = wan)) text @ [wan]"

definition set_names :: "pystr option list \<Rightarrow> pydict list \<Rightarrow> py_error + pydict list" where
  "set_names model_cols models =
     for_each (\<lambda>(idx, name_tag) ms.
         case name_tag of None \<Rightarrow> Inr ms
         | Some text \<Rightarrow> set_item k_model (strip_glyphs text) idx ms)
       (List.enumerate 0 model_cols) models"

definition set_prices :: "pylib \<Rightarrow> soup \<Rightarrow> pydict list \<Rightarrow> py_error + pydict list" where
  "set_prices P doc models =
     (case official_price doc of
        None \<Rightarrow> Inr models
      | Some None \<Rightarrow> Inl AttributeError
      | Some (Some price_cells) \<Rightarrow>
          for_each (\<lambda>(idx, cell) ms. set_item k_price (clean_price P cell) idx ms)
            (List.enumerate 0 (take (length models) price_cells)) models)"

definition set_row :: "attr_row \<Rightarrow> pydict list \<Rightarrow> py_error + pydict list" where
  "set_row row models =
     (case cell_label row of
        None \<Rightarrow> Inl AttributeError
      | Some label \<Rightarrow>
          for_each (\<lambda>(idx, cell) ms. set_item label (strip_glyphs cell) idx ms)
            (List.enumerate 0 (take (length models) (cells_normal row))) models)"

definition set_sections :: "attr_row list list \<Rightarrow> pydict list \<Rightarrow> py_error + pydict list" where
  "set_sections config_sections models =
     for_each (\<lambda>section ms. for_each set_row section ms) config_sections models"

text \<open>The body of the \<open>try\<close> block, lines 59 to 97.\<close>

definition parse_steps :: "pylib \<Rightarrow> soup \<Rightarrow> py_error + pydict list" where
  "parse_steps P doc =
     (case table_head doc of
        None \<Rightarrow> Inr []
      | Some model_cols \<Rightarrow>
          if model_cols = [] then Inr []
          else (case set_names model_cols (map (\<lambda>_. seed_model) model_cols) of
                  Inl e \<Rightarrow> Inl e
                | Inr m1 \<Rightarrow>
                    (case set_prices P doc m1 of
                       Inl e \<Rightarrow> Inl e
                     | Inr m2 \<Rightarrow>
                         (case set_sections (table_roots doc) m2 of
                            Inl e \<Rightarrow> Inl e
                          | Inr m3 \<Rightarrow> Inr (map normalize_model m3)))))"

text \<open>The whole function: \<open>except Exception\<close> turns every exception into \<open>return []\<close>.\<close>

definition parse_models_config :: "pylib \<Rightarrow> soup \<Rightarrow> py_error + pydict list" where
  "parse_models_config P doc =
     (case parse_steps P doc of Inl e \<Rightarrow> Inr [] | Inr models \<Rightarrow> Inr models)"

section \<open>Fetching with retries: \<open>fetch_data\<close>\<close>

text \<open>\<open>str(id)\<close> of an integer: its decimal digits, after a minus sign when negative.\<close>

function nat_digits :: "nat \<Rightarrow> pystr" where
  "nat_digits n = (if n < 10 then [48 + n] else nat_digits (n div 10) @ [48 + n mod 10])"
  by pat_completeness auto
termination
  by (relation "measure id") auto

definition py_str :: "int \<Rightarrow> pystr" where
  "py_str i = (if i < 0 then 45 # nat_digits (nat (- i)) else nat_digits (nat i))"

text \<open>
  What one \<open>requests.get\<close> gives: an exception, or a response with its \<open>ok\<close> flag, whether
  its text contains the marker, and the document parsed from its text.
\<close>

datatype http_outcome = Raises | Response bool bool soup

record fetch_log =
  requests :: nat
  sleeps :: "rat list"

text \<open>\<open>0.5 ** attempt\<close>: a power of two, exact in floating point for every attempt of the
  loop (\<open>attempt < retry_times = 3\<close>).\<close>

definition backoff :: "nat \<Rightarrow> rat" where
  "backoff attempt = (1 / 2) ^ attempt"

text \<open>\<open>any(res[k_model] != unknown_model for res in results)\<close>; the subscript raises on a
  record without the key.\<close>

fun any_named :: "pydict list \<Rightarrow> py_error + bool" where
  "any_named [] = Inr False"
| "any_named (res # rest) =
     (case dict_get res k_model of
        None \<Rightarrow> Inl KeyError
      | Some v \<Rightarrow> if v \<noteq> unknown_model then Inr True else any_named rest)"

text \<open>How one pass through the loop body ends: \<open>return\<close>, \<open>continue\<close> (no sleep), or
  falling through to \<open>sleep\<close>, after an exception was caught or the result was refused.\<close>

datatype attempt_end = Return "pydict list" | Continue | Sleep

definition try_attempt :: "pylib \<Rightarrow> http_outcome \<Rightarrow> int \<Rightarrow> attempt_end" where
  "try_attempt P r ident =
     (case r of
        Raises \<Rightarrow> Sleep
      | Response ok marker doc \<Rightarrow>
          if \<not> ok \<or> \<not> marker then Continue
          else (case parse_models_config P doc of
                  Inl e \<Rightarrow> Sleep
                | Inr parsed \<Rightarrow>
                    (let results = map (dict_set k_ID (py_str ident)) parsed
                     in if length results > 0
                        then (case any_named results of
                                Inl e \<Rightarrow> Sleep
                              | Inr b \<Rightarrow> if b then Return results else Sleep)
                        else Sleep)))"

text \<open>Whether a pass through the loop body ended in \<open>return\<close>.\<close>

definition is_return :: "attempt_end \<Rightarrow> bool" where
  "is_return e = (case e of Return results \<Rightarrow> True | Continue \<Rightarrow> False | Sleep \<Rightarrow> False)"

fun fetch_loop ::
  "pylib \<Rightarrow> (nat \<Rightarrow> http_outcome) \<Rightarrow> int \<Rightarrow> nat list \<Rightarrow> fetch_log
     \<Rightarrow> pydict list option \<times> fetch_log" where
  "fetch_loop P t ident [] lg = (None, lg)"
| "fetch_loop P t ident (attempt # rest) lg =
     (let lg1 = lg\<lparr>requests := requests lg + 1\<rparr>
      in case try_attempt P (t attempt) ident of
           Return results \<Rightarrow> (Some results, lg1)
         | Continue \<Rightarrow> fetch_loop P t ident rest lg1
         | Sleep \<Rightarrow> fetch_loop P t ident rest (lg1\<lparr>sleeps := sleeps lg1 @ [backoff attempt]\<rparr>))"

definition fetch_data ::
  "pylib \<Rightarrow> (nat \<Rightarrow> http_outcome) \<Rightarrow> int \<Rightarrow> (int \<times> pydict list option) \<times> fetch_log" where
  "fetch_data P t ident =
     (let (results, lg) = fetch_loop P t ident [0..<retry_times] \<lparr>requests = 0, sleeps = []\<rparr>
      in ((ident, results), lg))"

section \<open>CSV files and the ID set resolver: \<open>get_unique_ids\<close>\<close>

text \<open>
  A CSV file on disk is the table of its records (a list of cell texts per line, a blank
  line being the empty list) together with whether it starts with a byte-order mark.
  \<open>main\<close> writes its files with \<open>encoding='utf-8-sig'\<close>, which puts the mark first;
  both readers of \<open>get_unique_ids\<close> open with \<open>encoding='utf-8'\<close>, which keeps the mark
  as the character U+FEFF at the start of the first cell of the first line.
\<close>

record csv_file =
  bom :: bool
  table :: "pystr list list"

definition reader_utf8 :: "csv_file \<Rightarrow> pystr list list" where
  "reader_utf8 f =
     (if bom f
      then (case table f of
              [] \<Rightarrow> [[[0xFEFF]]]
            | [] # rest \<Rightarrow> [[0xFEFF]] # rest
            | (c # cs) # rest \<Rightarrow> ((0xFEFF # c) # cs) # rest)
      else table f)"

text \<open>
  \<open>csv.DictReader\<close>: the first line gives the field names; blank lines are skipped; a
  row is \<open>dict(zip(fieldnames, row))\<close>, and a field name beyond a short row is bound to
  \<open>None\<close>. (The extra cells of a long row go under the key \<open>None\<close>, which no lookup of the
  source uses.)
\<close>

datatype pyval = PyNone | PyStr pystr

type_synonym csv_row = "pystr \<Rightarrow> pyval option"

definition row_dict :: "pystr list \<Rightarrow> pystr list \<Rightarrow> csv_row" where
  "row_dict fieldnames row =
     map_of (rev (zip fieldnames (map PyStr row)
                  @ map (\<lambda>k. (k, PyNone)) (drop (length row) fieldnames)))"

definition dict_reader :: "pystr list list \<Rightarrow> csv_row list" where
  "dict_reader lines =
     (case lines of
        [] \<Rightarrow> []
      | fieldnames # rest \<Rightarrow> map (row_dict fieldnames) (filter (\<lambda>r. r \<noteq> []) rest))"

definition endswith :: "pystr \<Rightarrow> pystr \<Rightarrow> bool" where
  "endswith s suf = (length suf \<le> length s \<and> drop (length s - length suf) s = suf)"

text \<open>
  The file system as the program meets it: the manifest \<open>car_rank_total.csv\<close> (\<open>None\<close>
  when it cannot be opened), the listing of the directory \<open>car_data\<close> (\<open>None\<close> when the
  directory does not exist; an entry is \<open>None\<close> when it cannot be opened), and what the
  site answers to the request number \<open>attempt\<close> for an identifier.
\<close>

record world =
  manifest :: "csv_file option"
  out_dir :: "(pystr \<times> csv_file option) list option"
  transport :: "int \<Rightarrow> nat \<Rightarrow> http_outcome"

text \<open>Lines 39 to 43: \<open>KeyError\<close> and \<open>ValueError\<close> are passed over; \<open>int(None)\<close>, on
  a short row, raises \<open>TypeError\<close>, which is not caught.\<close>

fun manifest_ids :: "pylib \<Rightarrow> csv_row list \<Rightarrow> int set \<Rightarrow> py_error + int set" where
  "manifest_ids P [] unique_ids = Inr unique_ids"
| "manifest_ids P (row # rows) unique_ids =
     (case row (ascii ''id'') of
        None \<Rightarrow> manifest_ids P rows unique_ids
      | Some PyNone \<Rightarrow> Inl TypeError
      | Some (PyStr s) \<Rightarrow>
          (case str_to_int P s of
             None \<Rightarrow> manifest_ids P rows unique_ids
           | Some n \<Rightarrow> manifest_ids P rows (insert n unique_ids)))"

text \<open>Line 49, the set comprehension: nothing here is caught.\<close>

fun done_ids :: "pylib \<Rightarrow> csv_row list \<Rightarrow> py_error + int set" where
  "done_ids P [] = Inr {}"
| "done_ids P (row # rows) =
     (case row k_ID of
        None \<Rightarrow> Inl KeyError
      | Some PyNone \<Rightarrow> Inl AttributeError
      | Some (PyStr s) \<Rightarrow>
          if str_isdigit P s
          then (case str_to_int P s of
                  None \<Rightarrow> Inl ValueError
                | Some n \<Rightarrow>
                    (case done_ids P rows of Inl e \<Rightarrow> Inl e | Inr ds \<Rightarrow> Inr (insert n ds)))
          else done_ids P rows)"

definition subtract_file :: "pylib \<Rightarrow> pystr \<times> csv_file option \<Rightarrow> int set \<Rightarrow> py_error + int set" where
  "subtract_file P entry unique_ids =
     (case entry of (fname, content) \<Rightarrow>
        if endswith fname (ascii ''.csv'')
        then (case content of
                None \<Rightarrow> Inl OSError
              | Some f \<Rightarrow>
                  (case done_ids P (dict_reader (reader_utf8 f)) of
                     Inl e \<Rightarrow> Inl e
                   | Inr ds \<Rightarrow> Inr (unique_ids - ds)))
        else Inr unique_ids)"

definition get_unique_ids :: "pylib \<Rightarrow> world \<Rightarrow> py_error + int list" where
  "get_unique_ids P w =
     (case manifest w of
        None \<Rightarrow> Inl OSError
      | Some f \<Rightarrow>
          (case manifest_ids P (dict_reader (reader_utf8 f)) {} of
             Inl e \<Rightarrow> Inl e
           | Inr unique_ids \<Rightarrow>
               (case out_dir w of
                  None \<Rightarrow> Inr (sorted_list_of_set unique_ids)
                | Some entries \<Rightarrow>
                    (case for_each (subtract_file P) entries unique_ids of
                       Inl e \<Rightarrow> Inl e
                     | Inr remaining \<Rightarrow> Inr (sorted_list_of_set remaining)))))"

section \<open>The collector and the writer: \<open>main\<close>\<close>

text \<open>\<open>all_data\<close> is a \<open>defaultdict(list)\<close>: its keys are kept in the order of their first
  use, which is the order the files are written in.\<close>

record collector =
  all_data :: "(pystr \<times> pydict list) list"
  field_set :: "pystr set"

fun bucket_append :: "pystr \<Rightarrow> pydict \<Rightarrow> (pystr \<times> pydict list) list \<Rightarrow> (pystr \<times> pydict list) list" where
  "bucket_append energy model [] = [(energy, [model])]"
| "bucket_append energy model (b # bs) =
     (if fst b = energy then (energy, snd b @ [model]) # bs
      else b # bucket_append energy model bs)"

definition collect_model :: "collector \<Rightarrow> pydict \<Rightarrow> collector" where
  "collect_model c model =
     \<lparr>all_data = bucket_append (dict_get_default model k_energy e_unknown) model (all_data c),
      field_set = field_set c \<union> set (dict_keys model)\<rparr>"

definition collect_id :: "pylib \<Rightarrow> world \<Rightarrow> collector \<Rightarrow> int \<Rightarrow> collector" where
  "collect_id P w c ident =
     (case snd (fst (fetch_data P (transport w ident) ident)) of
        None \<Rightarrow> c
      | Some results \<Rightarrow> if results = [] then c else foldl collect_model c results)"

definition scan :: "pylib \<Rightarrow> world \<Rightarrow> int list \<Rightarrow> collector" where
  "scan P w ids = foldl (collect_id P w) \<lparr>all_data = [], field_set = {}\<rparr> ids"

definition base_fields :: "pystr list" where
  "base_fields = [k_ID, k_model, k_price, k_energy]"

definition all_fields :: "pystr set \<Rightarrow> pystr list" where
  "all_fields fs = base_fields @ sorted_list_of_set {f \<in> fs. f \<notin> set base_fields}"

definition file_tag :: "pystr \<Rightarrow> pystr" where
  "file_tag energy_type =
     (case map_of ENERGY_TYPES energy_type of None \<Rightarrow> ascii ''unknown'' | Some tag \<Rightarrow> tag)"

definition output_name :: "pystr \<Rightarrow> pystr" where
  "output_name tag = ascii ''car_data_'' @ tag @ ascii ''.csv''"

text \<open>\<open>csv.DictWriter\<close> with \<open>extrasaction='ignore'\<close>: one cell per field name, empty when
  the record has no such key.\<close>

definition dict_row :: "pystr list \<Rightarrow> pydict \<Rightarrow> pystr list" where
  "dict_row fieldnames rec = map (\<lambda>f. dict_get_default rec f []) fieldnames"

text \<open>\<open>open(path, 'w')\<close>: the file is created or replaced.\<close>

fun fs_write :: "pystr \<Rightarrow> csv_file \<Rightarrow> (pystr \<times> csv_file option) list \<Rightarrow> (pystr \<times> csv_file option) list" where
  "fs_write name f [] = [(name, Some f)]"
| "fs_write name f (e # es) =
     (if fst e = name then (name, Some f) # es else e # fs_write name f es)"

definition write_bucket ::
  "pystr list \<Rightarrow> (pystr \<times> csv_file option) list \<Rightarrow> pystr \<times> pydict list
     \<Rightarrow> (pystr \<times> csv_file option) list" where
  "write_bucket fieldnames dir bucket =
     fs_write (output_name (file_tag (fst bucket)))
       \<lparr>bom = True, table = fieldnames # map (dict_row fieldnames) (snd bucket)\<rparr> dir"

definition write_all ::
  "pystr list \<Rightarrow> (pystr \<times> pydict list) list \<Rightarrow> (pystr \<times> csv_file option) list
     \<Rightarrow> (pystr \<times> csv_file option) list" where
  "write_all fieldnames buckets dir = foldl (write_bucket fieldnames) dir buckets"

text \<open>What a run leaves: the exception that ended it, if any, the identifiers it
  requested, and the directory \<open>car_data\<close>.\<close>

record run =
  raised :: "py_error option"
  requested :: "int list"
  files :: "(pystr \<times> csv_file option) list"

text \<open>\<open>os.makedirs(output_dir, exist_ok=True)\<close>: afterwards the directory exists.\<close>

definition listing :: "world \<Rightarrow> (pystr \<times> csv_file option) list" where
  "listing w = (case out_dir w of None \<Rightarrow> [] | Some entries \<Rightarrow> entries)"

definition makedirs :: "world \<Rightarrow> world" where
  "makedirs w = w\<lparr>out_dir := Some (listing w)\<rparr>"

definition main :: "pylib \<Rightarrow> world \<Rightarrow> run" where
  "main P w =
     (case get_unique_ids P (makedirs w) of
        Inl e \<Rightarrow> \<lparr>raised = Some e, requested = [], files = listing w\<rparr>
      | Inr ids \<Rightarrow>
          if ids = [] then \<lparr>raised = None, requested = [], files = listing w\<rparr>
          else (let c = scan P w ids
                in \<lparr>raised = None, requested = ids,
                    files = write_all (all_fields (field_set c)) (all_data c) (listing w)\<rparr>))"

text \<open>The records one identifier contributes, and the collector fed with a list of
  records (lines 149 to 152).\<close>

definition accepted :: "pylib \<Rightarrow> world \<Rightarrow> int \<Rightarrow> pydict list" where
  "accepted P w ident =
     (case snd (fst (fetch_data P (transport w ident) ident)) of None \<Rightarrow> [] | Some results \<Rightarrow> results)"

definition collect_all :: "pydict list \<Rightarrow> collector" where
  "collect_all records = foldl collect_model \<lparr>all_data = [], field_set = {}\<rparr> records"

definition observed_fields :: "pydict list \<Rightarrow> pystr set" where
  "observed_fields records = (\<Union>r\<in>set records. set (dict_keys r))"

declare nat_digits.simps [simp del]

section \<open>An instance of the builtins on ASCII digits\<close>

text \<open>
  For evaluating runs: \<open>isdigit\<close> and \<open>\d\<close> on the ASCII digits, and \<open>int\<close> on an optional
  sign followed by ASCII digits. The builtins agree with it on such strings.
\<close>

definition ascii_isdigit :: "pystr \<Rightarrow> bool" where
  "ascii_isdigit s = (s \<noteq> [] \<and> list_all (\<lambda>c. 48 \<le> c \<and> c \<le> 57) s)"

definition ascii_nat :: "pystr \<Rightarrow> nat option" where
  "ascii_nat s = (if ascii_isdigit s then Some (foldl (\<lambda>a c. 10 * a + (c - 48)) 0 s) else None)"

definition ascii_int :: "pystr \<Rightarrow> int option" where
  "ascii_int s =
     (case s of
        [] \<Rightarrow> None
      | c # cs \<Rightarrow>
          if c = 45 then map_option (\<lambda>n. - int n) (ascii_nat cs)
          else if c = 43 then map_option int (ascii_nat cs)
          else map_option int (ascii_nat s))"

definition ascii_lib :: pylib where
  "ascii_lib = \<lparr>str_to_int = ascii_int, str_isdigit = ascii_isdigit,
                re_digit = (\<lambda>c. 48 \<le> c \<and> c \<le> 57)\<rparr>"

section \<open>Example inputs\<close>

text \<open>A page with two model columns, the second without a name element; a page whose
  price element has no enclosing row; a page without a header.\<close>

definition page_two :: soup where
  "page_two =
     \<lparr>table_head = Some [Some ([0x25CF] @ ascii ''Model X'' @ [0x203B]), None],
      official_price = Some (Some [ascii ''12.98'', ascii ''15.5'']),
      table_roots =
        [[\<lparr>row_anchor = ascii ''energy'', cell_label = Some k_energy,
            cells_normal = [e_electric, e_fuel]\<rparr>,
          \<lparr>row_anchor = ascii ''seats'', cell_label = Some (ascii ''seats''),
            cells_normal = [ascii ''5'', ascii ''7'']\<rparr>]]\<rparr>"

definition models_two :: "pydict list" where
  "models_two =
     [[(k_model, ascii ''Model X''), (k_price, ascii ''12.98'' @ [wan]), (k_energy, e_electric),
       (ascii ''seats'', ascii ''5''), (ascii ''electric_consumption'', n_a),
       (ascii ''battery_capacity'', n_a), (ascii ''cltc_recharge_mileage'', n_a)],
      [(k_model, unknown_model), (k_price, ascii ''15.5'' @ [wan]), (k_energy, e_fuel),
       (ascii ''seats'', ascii ''7''), (ascii ''engine_max_horsepower'', n_a),
       (ascii ''fuel_consumption'', n_a), (ascii ''displacement'', n_a)]]"

definition page_broken :: soup where
  "page_broken =
     \<lparr>table_head = Some [Some (ascii ''A'')],
      official_price = Some None,
      table_roots = []\<rparr>"

definition page_headless :: soup where
  "page_headless = \<lparr>table_head = None, official_price = None, table_roots = []\<rparr>"

definition model_electric :: pydict where
  "model_electric =
     [(k_model, ascii ''Model X''), (k_energy, e_electric),
      (ascii ''battery_capacity'', ascii ''75kWh'')]"

definition always_raises :: "nat \<Rightarrow> http_outcome" where
  "always_raises attempt = Raises"

text \<open>A site that answers every request with a status that is not ok.\<close>

definition never_ok :: "nat \<Rightarrow> http_outcome" where
  "never_ok attempt = Response False True page_two"

definition flaky :: "nat \<Rightarrow> http_outcome" where
  "flaky attempt =
     (if attempt = 0 then Response True True page_headless
      else if attempt = 1 then Response True False page_two
      else Response True True page_two)"

definition tagged_two :: "pydict list" where
  "tagged_two = map (\<lambda>m. m @ [(k_ID, ascii ''7'')]) models_two"

definition first_run :: world where
  "first_run =
     \<lparr>manifest = Some \<lparr>bom = False, table = [[ascii ''id''], [ascii ''7'']]\<rparr>,
      out_dir = None,
      transport = (\<lambda>ident. flaky)\<rparr>"

definition fields_two :: "pystr list" where
  "fields_two =
     [k_ID, k_model, k_price, k_energy,
      ascii ''battery_capacity'', ascii ''cltc_recharge_mileage'', ascii ''displacement'',
      ascii ''electric_consumption'', ascii ''engine_max_horsepower'',
      ascii ''fuel_consumption'', ascii ''seats'']"

text \<open>A page with three model columns whose energy-type row has cells for the first two
  only, with labels that \<open>ENERGY_TYPES\<close> does not know; the site answers every request
  with it.\<close>

definition page_three :: soup where
  "page_three =
     \<lparr>table_head = Some [Some (ascii ''A''), Some (ascii ''B''), Some (ascii ''C'')],
      official_price = None,
      table_roots =
        [[\<lparr>row_anchor = ascii ''energy'', cell_label = Some k_energy,
            cells_normal = [ascii ''H2'', ascii ''LPG'']\<rparr>]]\<rparr>"

definition run_three :: world where
  "run_three =
     \<lparr>manifest = Some \<lparr>bom = False, table = [[ascii ''id''], [ascii ''7'']]\<rparr>,
      out_dir = None,
      transport = (\<lambda>ident attempt. Response True True page_three)\<rparr>"

definition record_A :: pydict where
  "record_A = [(k_model, ascii ''A''), (k_price, n_a), (k_energy, ascii ''H2''), (k_ID, ascii ''7'')]"

definition record_B :: pydict where
  "record_B = [(k_model, ascii ''B''), (k_price, n_a), (k_energy, ascii ''LPG''), (k_ID, ascii ''7'')]"

definition record_C :: pydict where
  "record_C = [(k_model, ascii ''C''), (k_price, n_a), (k_ID, ascii ''7'')]"

text \<open>A directory with a file left by another tool, \<open>notes.csv\<close> with the columns
  \<open>name\<close> and \<open>remark\<close>.\<close>

definition foreign_dir :: world where
  "foreign_dir =
     \<lparr>manifest = Some \<lparr>bom = False, table = [[ascii ''id''], [ascii ''7'']]\<rparr>,
      out_dir = Some [(ascii ''notes.csv'',
                       Some \<lparr>bom = False,
                             table = [[ascii ''name'', ascii ''remark''], [ascii ''x'', ascii ''y'']]\<rparr>)],
      transport = (\<lambda>ident. flaky)\<rparr>"

text \<open>A manifest with the identifiers 7 and 8 and no directory yet: the site answers
  for 7 at the third request and never for 8.\<close>

definition resume_run :: world where
  "resume_run =
     \<lparr>manifest = Some \<lparr>bom = False, table = [[ascii ''id''], [ascii ''7''], [ascii ''8'']]\<rparr>,
      out_dir = None,
      transport = (\<lambda>ident. if ident = 7 then flaky else always_raises)\<rparr>"

section \<open>Properties\<close>

subsection \<open>Dictionaries and character classes\<close>

lemma dict_get_set: "dict_get (dict_set k v d) k' = (if k' = k then Some v else dict_get d k')"
  by (induction d) (auto simp: dict_get_def)

lemma re_sub_del_filter: "re_sub_del p s = filter (\<lambda>c. \<not> p c) s"
  by (induction s) auto

lemma in_glyph_class:
  "in_class glyph_class c = (0xE600 \<le> c \<and> c \<le> 0xE6FF \<or> c = 0x25CF \<or> c = 0x25CB \<or> c = 0x203B)"
  by (simp add: glyph_class_def)

lemma dict_get_default_set:
  "dict_get_default (dict_set k v d) k' dflt = (if k' = k then v else dict_get_default d k' dflt)"
  by (simp add: dict_get_default_def dict_get_set)

lemma dict_get_fill_fields:
  "dict_get (fill_fields fs m) k =
     (if k \<in> set fs then Some (dict_get_default m k n_a) else dict_get m k)"
proof (induction fs arbitrary: m)
  case Nil
  show ?case by simp
next
  case (Cons f fs)
  show ?case
    by (simp add: Cons.IH dict_get_set dict_get_default_set)
qed

lemma energy_not_specific: "k_energy \<notin> set (get_energy_specific_fields t)"
  by (simp add: get_energy_specific_fields_def ENERGY_TYPE_MAP_def k_energy_def ascii_def
      split: option.splits if_splits)

lemma normalize_keeps_energy: "dict_get (normalize_model m) k_energy = dict_get m k_energy"
  by (simp add: normalize_model_def Let_def dict_get_fill_fields energy_not_specific)

subsection \<open>The loops of the extractor keep the number of records\<close>

lemma for_each_length:
  assumes "\<And>x s s'. body x s = Inr s' \<Longrightarrow> length s' = length (s :: 'b list)"
    and "for_each body xs s = Inr s'"
  shows "length s' = length s"
  using assms(2)
proof (induction xs arbitrary: s)
  case Nil
  then show ?case by simp
next
  case (Cons x xs)
  then obtain s1 where b: "body x s = Inr s1" and r: "for_each body xs s1 = Inr s'"
    by (auto split: sum.splits)
  from Cons.IH [OF r] assms(1) [OF b] show ?case by simp
qed

lemma set_item_length: "set_item k v idx ms = Inr ms' \<Longrightarrow> length ms' = length ms"
  by (auto simp: set_item_def split: if_splits)

lemma set_names_length: "set_names cols ms = Inr ms' \<Longrightarrow> length ms' = length ms"
  unfolding set_names_def
  by (erule for_each_length [rotated]) (auto split: option.splits dest: set_item_length)

lemma set_prices_length: "set_prices P doc ms = Inr ms' \<Longrightarrow> length ms' = length ms"
  unfolding set_prices_def
  by (auto split: option.splits elim!: for_each_length [rotated] dest: set_item_length)

lemma set_row_length: "set_row row ms = Inr ms' \<Longrightarrow> length ms' = length ms"
  unfolding set_row_def
  by (auto split: option.splits elim!: for_each_length [rotated] dest: set_item_length)

lemma set_sections_length: "set_sections secs ms = Inr ms' \<Longrightarrow> length ms' = length ms"
  unfolding set_sections_def
  by (erule for_each_length [rotated]) (erule for_each_length [rotated], rule set_row_length)

lemma parse_steps_length:
  assumes "parse_steps P doc = Inr models"
  shows "length models = length (discovered_columns doc)"
proof (cases "table_head doc")
  case None
  with assms show ?thesis by (simp add: parse_steps_def discovered_columns_def)
next
  case (Some cols)
  show ?thesis
  proof (cases "cols = []")
    case True
    with Some assms show ?thesis by (simp add: parse_steps_def discovered_columns_def)
  next
    case False
    with Some assms obtain m1 m2 m3 where
      1: "set_names cols (map (\<lambda>_. seed_model) cols) = Inr m1" and
      2: "set_prices P doc m1 = Inr m2" and
      3: "set_sections (table_roots doc) m2 = Inr m3" and
      4: "models = map normalize_model m3"
      by (auto simp: parse_steps_def split: sum.splits)
    from set_names_length [OF 1] set_prices_length [OF 2] set_sections_length [OF 3] 4 Some
    show ?thesis by (simp add: discovered_columns_def)
  qed
qed

lemma parse_models_config_cases:
  "parse_models_config P doc = Inr (case parse_steps P doc of Inl e \<Rightarrow> [] | Inr models \<Rightarrow> models)"
  by (simp add: parse_models_config_def split: sum.splits)

lemma parse_steps_normalized:
  "parse_steps P doc = Inr models \<Longrightarrow> \<exists>raw. models = map normalize_model raw"
  by (auto simp: parse_steps_def split: option.splits if_splits sum.splits)

lemma parse_steps_page_two:
  "parse_steps ascii_lib page_two =
     Inr [[(k_model, ascii ''Model X''), (k_price, ascii ''12.98'' @ [wan]), (k_energy, e_electric),
           (ascii ''seats'', ascii ''5''), (ascii ''electric_consumption'', n_a),
           (ascii ''battery_capacity'', n_a), (ascii ''cltc_recharge_mileage'', n_a)],
          [(k_model, unknown_model), (k_price, ascii ''15.5'' @ [wan]), (k_energy, e_fuel),
           (ascii ''seats'', ascii ''7''), (ascii ''engine_max_horsepower'', n_a),
           (ascii ''fuel_consumption'', n_a), (ascii ''displacement'', n_a)]]"
  by (simp add: parse_steps_def page_two_def set_names_def set_prices_def set_sections_def
      set_row_def set_item_def seed_model_def clean_price_def strip_glyphs_def glyph_class_def
      normalize_model_def get_energy_specific_fields_def ENERGY_TYPE_MAP_def
      dict_get_default_def dict_get_def ascii_lib_def
      k_model_def k_price_def k_energy_def unknown_model_def n_a_def wan_def ascii_def
      e_electric_def e_fuel_def e_hybrid_def e_plugin_def e_extender_def)

lemma parse_steps_page_broken: "parse_steps ascii_lib page_broken = Inl AttributeError"
  by (simp add: parse_steps_def page_broken_def set_names_def set_prices_def set_item_def
      seed_model_def)

subsection \<open>The extractor\<close>

text \<open>
  Claim C1. The extractor always returns a sequence, whose length is the number of
  discovered model columns or zero; and when the steps of the \<open>try\<close> block end without
  an exception, the sequence returned is theirs and has exactly one record per discovered
  column.
\<close>

theorem parse_models_config_length:
  "(\<exists>models. parse_models_config P doc = Inr models \<and>
       (length models = length (discovered_columns doc) \<or> length models = 0))
   \<and> (\<forall>models. parse_steps P doc = Inr models \<longrightarrow>
         parse_models_config P doc = Inr models \<and>
         length models = length (discovered_columns doc))"
proof (cases "parse_steps P doc")
  case (Inl e)
  then show ?thesis by (simp add: parse_models_config_def)
next
  case (Inr models)
  with parse_steps_length [OF Inr] show ?thesis by (simp add: parse_models_config_def)
qed

theorem parse_models_config_length_witness:
  "parse_steps ascii_lib page_two = Inr models_two
   \<and> parse_models_config ascii_lib page_two = Inr models_two
   \<and> length models_two = length (discovered_columns page_two)
   \<and> length (discovered_columns page_two) = 2"
  using parse_models_config_length [of ascii_lib page_two] parse_steps_page_two
  by (simp add: models_two_def discovered_columns_def page_two_def)

text \<open>
  Claim C5. The extractor never raises: it always returns a sequence; an exception of the
  steps in the \<open>try\<close> block makes it return the empty sequence; and so does a document
  with no header, or with a header and no model column.
\<close>

theorem parse_models_config_never_raises:
  "(\<exists>models. parse_models_config P doc = Inr models)
   \<and> (\<forall>e. parse_steps P doc = Inl e \<longrightarrow> parse_models_config P doc = Inr [])
   \<and> (discovered_columns doc = [] \<longrightarrow> parse_models_config P doc = Inr [])"
proof (intro conjI allI impI)
  show "\<exists>models. parse_models_config P doc = Inr models"
    by (simp add: parse_models_config_cases)
next
  fix e assume "parse_steps P doc = Inl e"
  then show "parse_models_config P doc = Inr []"
    by (simp add: parse_models_config_def)
next
  assume "discovered_columns doc = []"
  then have "parse_steps P doc = Inr []"
    by (simp add: discovered_columns_def parse_steps_def split: option.splits)
  then show "parse_models_config P doc = Inr []"
    by (simp add: parse_models_config_def)
qed

theorem parse_models_config_never_raises_witness:
  "parse_steps ascii_lib page_broken = Inl AttributeError
   \<and> parse_models_config ascii_lib page_broken = Inr []
   \<and> discovered_columns page_headless = []
   \<and> parse_models_config ascii_lib page_headless = Inr []"
  using parse_models_config_never_raises [of ascii_lib page_broken]
    parse_models_config_never_raises [of ascii_lib page_headless] parse_steps_page_broken
  by (simp add: discovered_columns_def page_headless_def)

text \<open>
  Claim C2. For a record whose energy type \<open>t\<close> is a key of \<open>ENERGY_TYPE_MAP\<close>, after the
  normalization every key the catalog lists for \<open>t\<close> is present, with the value it had or
  with \<open>N/A\<close> when it was absent, and every other key is as it was; in particular every
  record the extractor returns has all the catalog keys of its energy type.
\<close>

theorem normalize_model_complete:
  assumes "map_of ENERGY_TYPE_MAP t = Some fs"
  shows "(dict_get model k_energy = Some t \<longrightarrow>
            (\<forall>f\<in>set fs.
               dict_get (normalize_model model) f =
                 Some (case dict_get model f of None \<Rightarrow> n_a | Some v \<Rightarrow> v))
            \<and> (\<forall>k. k \<notin> set fs \<longrightarrow> dict_get (normalize_model model) k = dict_get model k))
       \<and> (parse_models_config P doc = Inr models \<and> m \<in> set models \<and>
            dict_get m k_energy = Some t \<longrightarrow>
            (\<forall>f\<in>set fs. dict_get m f \<noteq> None))"
proof (intro conjI impI)
  assume e: "dict_get model k_energy = Some t"
  with assms have n: "normalize_model model = fill_fields fs model"
    by (simp add: normalize_model_def dict_get_default_def get_energy_specific_fields_def)
  show "\<forall>f\<in>set fs.
          dict_get (normalize_model model) f =
            Some (case dict_get model f of None \<Rightarrow> n_a | Some v \<Rightarrow> v)"
    by (simp add: n dict_get_fill_fields dict_get_default_def)
  show "\<forall>k. k \<notin> set fs \<longrightarrow> dict_get (normalize_model model) k = dict_get model k"
    by (simp add: n dict_get_fill_fields)
next
  assume a: "parse_models_config P doc = Inr models \<and> m \<in> set models \<and>
              dict_get m k_energy = Some t"
  then have "m \<in> set models" and "models \<noteq> []" by auto
  with a have "parse_steps P doc = Inr models"
    by (auto simp: parse_models_config_def split: sum.splits)
  then obtain raw where "models = map normalize_model raw"
    using parse_steps_normalized by blast
  with a obtain m0 where m: "m = normalize_model m0" by auto
  with a have e: "dict_get m0 k_energy = Some t" by (simp add: normalize_keeps_energy)
  with assms have "m = fill_fields fs m0"
    by (simp add: m normalize_model_def dict_get_default_def get_energy_specific_fields_def)
  then show "\<forall>f\<in>set fs. dict_get m f \<noteq> None"
    by (simp add: dict_get_fill_fields)
qed

theorem normalize_model_complete_witness:
  "map_of ENERGY_TYPE_MAP e_electric =
     Some [ascii ''electric_consumption'', ascii ''battery_capacity'', ascii ''cltc_recharge_mileage'']
   \<and> dict_get model_electric k_energy = Some e_electric
   \<and> dict_get (normalize_model model_electric) (ascii ''electric_consumption'') = Some n_a
   \<and> dict_get (normalize_model model_electric) (ascii ''battery_capacity'') = Some (ascii ''75kWh'')
   \<and> dict_get (normalize_model model_electric) (ascii ''cltc_recharge_mileage'') = Some n_a
   \<and> dict_get (normalize_model model_electric) k_model = Some (ascii ''Model X'')
   \<and> parse_models_config ascii_lib page_two = Inr models_two
   \<and> dict_get (models_two ! 0) k_energy = Some e_electric
   \<and> dict_get (models_two ! 0) (ascii ''cltc_recharge_mileage'') \<noteq> None"
proof -
  have c: "map_of ENERGY_TYPE_MAP e_electric =
     Some [ascii ''electric_consumption'', ascii ''battery_capacity'', ascii ''cltc_recharge_mileage'']"
    by (simp add: ENERGY_TYPE_MAP_def)
  have e: "dict_get model_electric k_energy = Some e_electric"
    by (simp add: model_electric_def dict_get_def k_model_def k_energy_def)
  have p: "parse_models_config ascii_lib page_two = Inr models_two"
    by (simp add: parse_models_config_def parse_steps_page_two models_two_def)
  have e2: "dict_get (models_two ! 0) k_energy = Some e_electric"
    by (simp add: models_two_def dict_get_def k_model_def k_energy_def k_price_def)
  have i: "models_two ! 0 \<in> set models_two"
    by (simp add: models_two_def)
  have k: "k_model \<noteq> ascii ''electric_consumption'' \<and> k_model \<noteq> ascii ''battery_capacity''
           \<and> k_model \<noteq> ascii ''cltc_recharge_mileage''"
    by (simp add: k_model_def ascii_def)
  have d: "dict_get model_electric (ascii ''electric_consumption'') = None
     \<and> dict_get model_electric (ascii ''battery_capacity'') = Some (ascii ''75kWh'')
     \<and> dict_get model_electric (ascii ''cltc_recharge_mileage'') = None
     \<and> dict_get model_electric k_model = Some (ascii ''Model X'')"
    by (simp add: model_electric_def dict_get_def k_model_def k_energy_def ascii_def)
  from normalize_model_complete [OF c, of model_electric ascii_lib page_two models_two "models_two ! 0"]
    c e p e2 i k d
  show ?thesis by simp
qed

text \<open>
  Claim C7, as amended. Cleaning a text removes exactly the characters of the class the
  source names: the code points U+E600 to U+E6FF, a part of the private use area, the
  black circle U+25CF, the white circle U+25CB and the reference mark U+203B. Every other
  character stays, in order. In particular the black circle, \<open>Model X\<close>, the reference
  mark is cleaned to \<open>Model X\<close>.
\<close>

theorem strip_glyphs_removes_exactly:
  "strip_glyphs s =
     filter (\<lambda>c. \<not> (0xE600 \<le> c \<and> c \<le> 0xE6FF \<or> c = 0x25CF \<or> c = 0x25CB \<or> c = 0x203B)) s
   \<and> strip_glyphs ([0x25CF] @ ascii ''Model X'' @ [0x203B]) = ascii ''Model X''"
proof
  show "strip_glyphs s =
     filter (\<lambda>c. \<not> (0xE600 \<le> c \<and> c \<le> 0xE6FF \<or> c = 0x25CF \<or> c = 0x25CB \<or> c = 0x203B)) s"
    unfolding strip_glyphs_def re_sub_del_filter in_glyph_class ..
  show "strip_glyphs ([0x25CF] @ ascii ''Model X'' @ [0x203B]) = ascii ''Model X''"
    by (simp add: strip_glyphs_def glyph_class_def ascii_def)
qed

text \<open>
  Claim C7 as stated fails: the private use area is U+E000 to U+F8FF, and icon fonts use
  all of it. U+F015 is one of its code points, set before \<open>Model X\<close> it is not removed;
  neither are U+E000, the first code point of the area, the bullet U+2022 and the
  asterisk U+002A.
\<close>

theorem strip_glyphs_private_use_counterexample:
  "(0xE000 :: nat) \<le> 0xF015 \<and> (0xF015 :: nat) \<le> 0xF8FF
   \<and> strip_glyphs (0xF015 # ascii ''Model X'') = 0xF015 # ascii ''Model X''
   \<and> strip_glyphs [0xE000, 0x2022, 0x2A] = [0xE000, 0x2022, 0x2A]"
  by (simp add: strip_glyphs_def glyph_class_def ascii_def)

subsection \<open>Fetching with retries\<close>

lemma any_named_True:
  "any_named rs = Inr True \<Longrightarrow> \<exists>res\<in>set rs. \<exists>v. dict_get res k_model = Some v \<and> v \<noteq> unknown_model"
  by (induction rs) (auto split: option.splits if_splits)

lemma try_attempt_Return:
  assumes "try_attempt P r ident = Return rs"
  shows "rs \<noteq> [] \<and> (\<exists>res\<in>set rs. \<exists>v. dict_get res k_model = Some v \<and> v \<noteq> unknown_model)
         \<and> (\<exists>doc parsed. r = Response True True doc \<and> parse_models_config P doc = Inr parsed
               \<and> rs = map (dict_set k_ID (py_str ident)) parsed)"
proof -
  from assms obtain doc parsed where
    r: "r = Response True True doc" and p: "parse_models_config P doc = Inr parsed" and
    rs: "rs = map (dict_set k_ID (py_str ident)) parsed" and ne: "parsed \<noteq> []" and
    a: "any_named rs = Inr True"
    by (auto simp: try_attempt_def Let_def split: http_outcome.splits if_splits sum.splits)
  from any_named_True [OF a] r p rs ne show ?thesis by simp
qed

lemma fetch_loop_None:
  "fst (fetch_loop P t ident as lg) = None \<longleftrightarrow>
     (\<forall>a\<in>set as. \<forall>rs. try_attempt P (t a) ident \<noteq> Return rs)"
  by (induction as arbitrary: lg) (auto simp: Let_def split: attempt_end.splits)

lemma fetch_loop_None_requests:
  "\<forall>a\<in>set as. \<forall>rs. try_attempt P (t a) ident \<noteq> Return rs \<Longrightarrow>
     requests (snd (fetch_loop P t ident as lg)) = requests lg + length as"
  by (induction as arbitrary: lg) (auto simp: Let_def split: attempt_end.splits)

lemma fetch_loop_Some:
  "fst (fetch_loop P t ident as lg) = Some rs \<Longrightarrow>
     \<exists>pre a post. as = pre @ a # post \<and> try_attempt P (t a) ident = Return rs
        \<and> (\<forall>b\<in>set pre. \<forall>rs'. try_attempt P (t b) ident \<noteq> Return rs')
        \<and> requests (snd (fetch_loop P t ident as lg)) = requests lg + length pre + 1"
proof (induction as arbitrary: lg)
  case Nil
  then show ?case by simp
next
  case (Cons a as)
  show ?case
  proof (cases "try_attempt P (t a) ident")
    case (Return rs')
    with Cons.prems have "rs' = rs" by (simp add: Let_def)
    with Return show ?thesis
      by (intro exI [of _ "[]"] exI [of _ a] exI [of _ as]) (simp add: Let_def)
  next
    case Continue
    let ?lg = "lg\<lparr>requests := requests lg + 1\<rparr>"
    from Continue Cons.prems have "fst (fetch_loop P t ident as ?lg) = Some rs"
      by (simp add: Let_def)
    from Cons.IH [OF this] obtain pre b post where
      "as = pre @ b # post" "try_attempt P (t b) ident = Return rs"
      "\<forall>c\<in>set pre. \<forall>rs'. try_attempt P (t c) ident \<noteq> Return rs'"
      "requests (snd (fetch_loop P t ident as ?lg)) = requests ?lg + length pre + 1"
      by blast
    with Continue show ?thesis
      by (intro exI [of _ "a # pre"] exI [of _ b] exI [of _ post]) (simp add: Let_def)
  next
    case Sleep
    let ?lg = "lg\<lparr>requests := requests lg + 1, sleeps := sleeps lg @ [backoff a]\<rparr>"
    from Sleep Cons.prems have "fst (fetch_loop P t ident as ?lg) = Some rs"
      by (simp add: Let_def)
    from Cons.IH [OF this] obtain pre b post where
      "as = pre @ b # post" "try_attempt P (t b) ident = Return rs"
      "\<forall>c\<in>set pre. \<forall>rs'. try_attempt P (t c) ident \<noteq> Return rs'"
      "requests (snd (fetch_loop P t ident as ?lg)) = requests ?lg + length pre + 1"
      by blast
    with Sleep show ?thesis
      by (intro exI [of _ "a # pre"] exI [of _ b] exI [of _ post]) (simp add: Let_def)
  qed
qed

lemma upt_split:
  assumes "[0..<n] = pre @ a # post"
  shows "a = length pre \<and> a < n \<and> set pre = {..<a}"
proof -
  have l: "length pre < n" using arg_cong [OF assms, of length] by simp
  have "[0..<n] ! length pre = a" by (simp add: assms)
  with l have a: "a = length pre" by simp
  have "take (length pre) [0..<n] = pre" by (simp add: assms)
  with l have "pre = [0..<length pre]" by (simp add: take_upt)
  then have "set pre = {..<length pre}" by (metis atLeast_upt)
  with a l show ?thesis by simp
qed

lemma fetch_data_parts:
  "fetch_data P t ident =
     ((ident, fst (fetch_loop P t ident [0..<retry_times] \<lparr>requests = 0, sleeps = []\<rparr>)),
      snd (fetch_loop P t ident [0..<retry_times] \<lparr>requests = 0, sleeps = []\<rparr>))"
  by (simp add: fetch_data_def split: prod.splits)

text \<open>
  Claim C6. \<open>fetch_data\<close> returns the identifier it was given. A result it returns is
  non-empty and has a record whose model name is not the sentinel; it is the result of the
  first attempt that was accepted, every attempt before it having been refused and
  followed by the next one. When no attempt within the retry bound is accepted, it
  returns no result, after \<open>retry_times\<close> requests; it never raises.
\<close>

theorem fetch_data_accepts_only_named:
  "fst (fst (fetch_data P t ident)) = ident
   \<and> (\<forall>rs. snd (fst (fetch_data P t ident)) = Some rs \<longrightarrow>
         rs \<noteq> []
         \<and> (\<exists>res\<in>set rs. \<exists>v. dict_get res k_model = Some v \<and> v \<noteq> unknown_model)
         \<and> (\<exists>a<retry_times. try_attempt P (t a) ident = Return rs
               \<and> (\<forall>b<a. \<forall>rs'. try_attempt P (t b) ident \<noteq> Return rs')
               \<and> requests (snd (fetch_data P t ident)) = a + 1))
   \<and> ((\<forall>a<retry_times. \<forall>rs. try_attempt P (t a) ident \<noteq> Return rs) \<longrightarrow>
         snd (fst (fetch_data P t ident)) = None
         \<and> requests (snd (fetch_data P t ident)) = retry_times)"
proof (intro conjI allI impI)
  show "fst (fst (fetch_data P t ident)) = ident"
    by (simp add: fetch_data_parts)
next
  fix rs assume "snd (fst (fetch_data P t ident)) = Some rs"
  then have s: "fst (fetch_loop P t ident [0..<retry_times] \<lparr>requests = 0, sleeps = []\<rparr>) = Some rs"
    by (simp add: fetch_data_parts)
  from fetch_loop_Some [OF s] obtain pre a post where
    sp: "[0..<retry_times] = pre @ a # post" and
    r: "try_attempt P (t a) ident = Return rs" and
    n: "\<forall>b\<in>set pre. \<forall>rs'. try_attempt P (t b) ident \<noteq> Return rs'" and
    q: "requests (snd (fetch_loop P t ident [0..<retry_times] \<lparr>requests = 0, sleeps = []\<rparr>))
          = length pre + 1"
    by auto
  from upt_split [OF sp] have a: "a = length pre" "a < retry_times" "set pre = {..<a}"
    by auto
  from try_attempt_Return [OF r]
  show "rs \<noteq> []" and "\<exists>res\<in>set rs. \<exists>v. dict_get res k_model = Some v \<and> v \<noteq> unknown_model"
    by auto
  from a r n q
  show "\<exists>a<retry_times. try_attempt P (t a) ident = Return rs
               \<and> (\<forall>b<a. \<forall>rs'. try_attempt P (t b) ident \<noteq> Return rs')
               \<and> requests (snd (fetch_data P t ident)) = a + 1"
    by (intro exI [of _ a]) (simp add: fetch_data_parts)
next
  assume "\<forall>a<retry_times. \<forall>rs. try_attempt P (t a) ident \<noteq> Return rs"
  then have n: "\<forall>a\<in>set [0..<retry_times]. \<forall>rs. try_attempt P (t a) ident \<noteq> Return rs"
    by simp
  from n show "snd (fst (fetch_data P t ident)) = None"
    by (simp only: fetch_data_parts fst_conv snd_conv fetch_loop_None)
  from fetch_loop_None_requests [OF n]
  show "requests (snd (fetch_data P t ident)) = retry_times"
    by (simp add: fetch_data_parts)
qed

lemma backoff_decreasing: "a < b \<Longrightarrow> backoff b < backoff a"
  by (simp add: backoff_def power_strict_decreasing)

lemma fetch_loop_sleeps_exact:
  "sleeps (snd (fetch_loop P t ident as lg)) =
     sleeps lg @ map backoff
       (filter (\<lambda>a. try_attempt P (t a) ident = Sleep)
          (takeWhile (\<lambda>a. \<not> is_return (try_attempt P (t a) ident)) as))"
proof (induction as arbitrary: lg)
  case Nil
  show ?case by simp
next
  case (Cons a as)
  show ?case
  proof (cases "try_attempt P (t a) ident")
    case (Return rs)
    then show ?thesis by (simp add: Let_def is_return_def)
  next
    case Continue
    then show ?thesis by (simp add: Let_def is_return_def Cons.IH)
  next
    case Sleep
    then show ?thesis by (simp add: Let_def is_return_def Cons.IH)
  qed
qed

text \<open>
  Claim C8, as amended. The sleeps of one call are exactly these: for every attempt
  before the first accepted one, in order, a sleep of \<open>backoff attempt\<close>, that is
  \<open>0.5 ** attempt\<close> seconds, when the attempt ended in an exception or a refused result,
  and no sleep when it ended in \<open>continue\<close>. A request that raises ends in a sleep; a
  response that is not ok or lacks the marker, and no other, ends in \<open>continue\<close>. The
  delay shrinks as the index grows:
  \<open>backoff j < backoff i\<close> for \<open>i < j\<close>, so each sleep of a call is strictly shorter
  than every sleep before it.
\<close>

theorem backoff_shrinks:
  "sleeps (snd (fetch_data P t ident)) =
     map backoff
       (filter (\<lambda>a. try_attempt P (t a) ident = Sleep)
          (takeWhile (\<lambda>a. \<not> is_return (try_attempt P (t a) ident)) [0..<retry_times]))
   \<and> try_attempt P Raises ident = Sleep
   \<and> (\<not> ok \<or> \<not> marker \<longrightarrow> try_attempt P (Response ok marker doc) ident = Continue)
   \<and> try_attempt P (Response True True doc) ident \<noteq> Continue
   \<and> backoff i = 1 / 2 ^ i
   \<and> (i < j \<longrightarrow> backoff j < backoff i)
   \<and> sorted_wrt (\<lambda>d d'. d' < d) (sleeps (snd (fetch_data P t ident)))"
proof (intro conjI impI)
  show "try_attempt P Raises ident = Sleep"
    by (simp add: try_attempt_def)
  show "try_attempt P (Response True True doc) ident \<noteq> Continue"
    by (simp add: try_attempt_def Let_def split: sum.splits)
next
  assume "\<not> ok \<or> \<not> marker"
  then show "try_attempt P (Response ok marker doc) ident = Continue"
    by (auto simp: try_attempt_def)
next
  let ?ss = "filter (\<lambda>a. try_attempt P (t a) ident = Sleep)
          (takeWhile (\<lambda>a. \<not> is_return (try_attempt P (t a) ident)) [0..<retry_times])"
  show e: "sleeps (snd (fetch_data P t ident)) = map backoff ?ss"
    by (simp add: fetch_data_parts fetch_loop_sleeps_exact)
  show "backoff i = 1 / 2 ^ i"
    by (simp add: backoff_def power_one_over)
  have "sorted_wrt (<) ?ss"
    by (intro sorted_wrt_filter sorted_wrt_takeWhile) simp
  then have "sorted_wrt (\<lambda>d d'. d' < d) (map backoff ?ss)"
    by (simp add: sorted_wrt_map) (erule sorted_wrt_mono_rel [rotated], simp add: backoff_decreasing)
  then show "sorted_wrt (\<lambda>d d'. d' < d) (sleeps (snd (fetch_data P t ident)))"
    by (simp only: e)
next
  assume "i < j"
  then show "backoff j < backoff i" by (rule backoff_decreasing)
qed

lemma attempts_list: "[0..<retry_times] = [0, 1, 2]"
  by code_simp

lemma fetch_data_always_raises:
  "fetch_data ascii_lib always_raises 7 = ((7, None), \<lparr>requests = 3, sleeps = [1, 1 / 2, 1 / 4]\<rparr>)"
  by (simp add: fetch_data_def attempts_list try_attempt_def always_raises_def backoff_def
      power2_eq_square)

text \<open>
  Claim C8 as stated fails: when every request raises, the sleeps are 1, 1/2 and 1/4
  seconds, and the sleep after attempt 0 is not shorter than the one after attempt 1.
\<close>

theorem backoff_grows_counterexample:
  "sleeps (snd (fetch_data ascii_lib always_raises 7)) = [1, 1 / 2, 1 / 4]
   \<and> \<not> sleeps (snd (fetch_data ascii_lib always_raises 7)) ! 0
        < sleeps (snd (fetch_data ascii_lib always_raises 7)) ! 1"
  by (simp add: fetch_data_always_raises)

lemma py_str_7: "py_str 7 = ascii ''7''"
  by (simp add: py_str_def ascii_def nat_digits.simps)

lemma parse_models_config_page_two: "parse_models_config ascii_lib page_two = Inr models_two"
  by (simp add: parse_models_config_def parse_steps_page_two models_two_def)

lemma parse_models_config_page_headless: "parse_models_config ascii_lib page_headless = Inr []"
  by (simp add: parse_models_config_def parse_steps_def page_headless_def)

lemma tag_models_two: "map (dict_set k_ID (ascii ''7'')) models_two = tagged_two"
  by (simp add: tagged_two_def models_two_def k_ID_def k_model_def k_price_def k_energy_def
      ascii_def)

lemma any_named_tagged_two: "any_named tagged_two = Inr True"
  by (simp add: tagged_two_def models_two_def dict_get_def k_model_def unknown_model_def
      ascii_def)

lemma try_attempt_flaky:
  "try_attempt ascii_lib (flaky 0) 7 = Sleep"
  "try_attempt ascii_lib (flaky (Suc 0)) 7 = Continue"
  "try_attempt ascii_lib (flaky 2) 7 = Return tagged_two"
    apply (simp add: try_attempt_def flaky_def parse_models_config_page_headless)
   apply (simp add: try_attempt_def flaky_def)
  apply (simp add: try_attempt_def flaky_def parse_models_config_page_two py_str_7 tag_models_two
      any_named_tagged_two)
  apply (simp add: tagged_two_def models_two_def)
  done

lemma fetch_data_flaky:
  "fetch_data ascii_lib flaky 7 = ((7, Some tagged_two), \<lparr>requests = 3, sleeps = [1]\<rparr>)"
  by (simp add: fetch_data_def attempts_list try_attempt_flaky backoff_def)

lemma fetch_data_never_ok:
  "fetch_data ascii_lib never_ok 7 = ((7, None), \<lparr>requests = 3, sleeps = []\<rparr>)"
  by (simp add: fetch_data_def attempts_list try_attempt_def never_ok_def)

theorem backoff_shrinks_witness:
  "sleeps (snd (fetch_data ascii_lib always_raises 7)) = [1, 1 / 2, 1 / 4]
   \<and> sleeps (snd (fetch_data ascii_lib never_ok 7)) = []
   \<and> try_attempt ascii_lib (never_ok 0) 7 = Continue
   \<and> try_attempt ascii_lib (flaky 0) 7 = Sleep
   \<and> try_attempt ascii_lib (flaky 1) 7 = Continue
   \<and> try_attempt ascii_lib (flaky 2) 7 = Return tagged_two
   \<and> sleeps (snd (fetch_data ascii_lib flaky 7)) = [backoff 0]
   \<and> backoff 0 = 1 \<and> backoff 1 = 1 / 2 \<and> backoff 2 = 1 / 4
   \<and> (0 :: nat) < 1 \<and> backoff 1 < backoff 0"
proof -
  have f: "filter (\<lambda>a. try_attempt ascii_lib (flaky a) 7 = Sleep)
          (takeWhile (\<lambda>a. \<not> is_return (try_attempt ascii_lib (flaky a) 7)) [0..<retry_times])
        = [0]"
    by (simp add: attempts_list try_attempt_flaky is_return_def)
  from backoff_shrinks [of ascii_lib flaky 7 False True page_two 0 1] f
  have "sleeps (snd (fetch_data ascii_lib flaky 7)) = [backoff 0] \<and> backoff 1 < backoff 0
        \<and> try_attempt ascii_lib (never_ok 0) 7 = Continue"
    by (simp add: never_ok_def)
  moreover from backoff_shrinks [of ascii_lib flaky 7 _ _ _ 0]
    backoff_shrinks [of ascii_lib flaky 7 _ _ _ 1] backoff_shrinks [of ascii_lib flaky 7 _ _ _ 2]
  have "backoff 0 = 1 \<and> backoff 1 = 1 / 2 \<and> backoff 2 = 1 / 4"
    by (simp add: power2_eq_square)
  ultimately show ?thesis
    using try_attempt_flaky by (simp add: fetch_data_always_raises fetch_data_never_ok)
qed

theorem fetch_data_accepts_only_named_witness:
  "snd (fst (fetch_data ascii_lib flaky 7)) = Some tagged_two
   \<and> tagged_two \<noteq> []
   \<and> (\<exists>res\<in>set tagged_two. \<exists>v. dict_get res k_model = Some v \<and> v \<noteq> unknown_model)
   \<and> try_attempt ascii_lib (flaky 2) 7 = Return tagged_two
   \<and> requests (snd (fetch_data ascii_lib flaky 7)) = 3
   \<and> try_attempt ascii_lib (always_raises 0) 7 = Sleep
   \<and> try_attempt ascii_lib (always_raises 1) 7 = Sleep
   \<and> try_attempt ascii_lib (always_raises 2) 7 = Sleep
   \<and> fetch_data ascii_lib always_raises 7 = ((7, None), \<lparr>requests = 3, sleeps = [1, 1 / 2, 1 / 4]\<rparr>)"
proof -
  have s: "snd (fst (fetch_data ascii_lib flaky 7)) = Some tagged_two"
    by (simp add: fetch_data_flaky)
  have n: "\<forall>a<retry_times. \<forall>rs. try_attempt ascii_lib (always_raises a) 7 \<noteq> Return rs"
    by (simp add: try_attempt_def always_raises_def)
  from fetch_data_accepts_only_named [of ascii_lib flaky 7] s
  have "tagged_two \<noteq> []
      \<and> (\<exists>res\<in>set tagged_two. \<exists>v. dict_get res k_model = Some v \<and> v \<noteq> unknown_model)"
    by blast
  moreover from fetch_data_accepts_only_named [of ascii_lib always_raises 7] n
  have "snd (fst (fetch_data ascii_lib always_raises 7)) = None" by blast
  ultimately show ?thesis
    using s by (simp add: fetch_data_flaky fetch_data_always_raises try_attempt_flaky)
      (simp add: try_attempt_def always_raises_def)
qed

subsection \<open>The collector\<close>

lemma field_set_foldl:
  "field_set (foldl collect_model c rs) = field_set c \<union> observed_fields rs"
  by (induction rs arbitrary: c) (auto simp: collect_model_def observed_fields_def)

lemma field_set_collect_all: "field_set (collect_all rs) = observed_fields rs"
  by (simp add: collect_all_def field_set_foldl)

lemma finite_observed_fields: "finite (observed_fields rs)"
  by (simp add: observed_fields_def)

lemma collect_id_accepted: "collect_id P w c ident = foldl collect_model c (accepted P w ident)"
  by (simp add: collect_id_def accepted_def split: option.splits)

lemma foldl_collect_id:
  "foldl (collect_id P w) c ids = foldl collect_model c (concat (map (accepted P w) ids))"
  by (induction ids arbitrary: c) (simp_all add: collect_id_accepted)

lemma scan_collect_all: "scan P w ids = collect_all (concat (map (accepted P w) ids))"
  by (simp add: scan_def collect_all_def foldl_collect_id)

lemma all_fields_diff: "all_fields fs = base_fields @ sorted_list_of_set (fs - set base_fields)"
proof -
  have "{f \<in> fs. f \<notin> set base_fields} = fs - set base_fields" by auto
  then show ?thesis by (simp add: all_fields_def)
qed

subsection \<open>The writer\<close>

lemma map_of_fs_write:
  "map_of (fs_write name f dir) name' = (if name' = name then Some (Some f) else map_of dir name')"
  by (induction dir) auto

lemma write_all_snoc:
  "write_all F (bs @ [b]) dir = write_bucket F (write_all F bs dir) b"
  by (simp add: write_all_def)

lemma write_all_lookup:
  "map_of (write_all F bs dir) name =
     (if filter (\<lambda>b. output_name (file_tag (fst b)) = name) bs = [] then map_of dir name
      else Some (Some \<lparr>bom = True,
             table = F # map (dict_row F)
               (snd (last (filter (\<lambda>b. output_name (file_tag (fst b)) = name) bs)))\<rparr>))"
proof (induction bs rule: rev_induct)
  case Nil
  show ?case by (simp add: write_all_def)
next
  case (snoc b bs)
  show ?case
  proof (cases "output_name (file_tag (fst b)) = name")
    case True
    then show ?thesis
      by (simp add: write_all_snoc write_bucket_def map_of_fs_write)
  next
    case False
    with snoc.IH show ?thesis
      by (simp add: write_all_snoc write_bucket_def map_of_fs_write)
  qed
qed

lemma output_name_inj: "output_name a = output_name b \<longleftrightarrow> a = b"
  by (simp add: output_name_def)

lemma file_tag_unknown:
  "file_tag l = ascii ''unknown'' \<longleftrightarrow> map_of ENERGY_TYPES l = None \<or> l = e_unknown"
  by (simp add: file_tag_def ENERGY_TYPES_def ascii_def e_electric_def e_fuel_def e_hybrid_def
      e_plugin_def e_extender_def e_unknown_def)

lemma main_files:
  assumes "get_unique_ids P (makedirs w) = Inr ids" and "ids \<noteq> []"
  shows "files (main P w) =
           write_all (all_fields (field_set (scan P w ids))) (all_data (scan P w ids)) (listing w)"
    and "raised (main P w) = None" and "requested (main P w) = ids"
  using assms by (simp_all add: main_def Let_def)

lemma all_fields_observed:
  "all_fields (observed_fields rs) =
     base_fields @ sort (remdups (filter (\<lambda>f. f \<notin> set base_fields) (concat (map dict_keys rs))))"
proof -
  have "observed_fields rs - set base_fields
          = set (filter (\<lambda>f. f \<notin> set base_fields) (concat (map dict_keys rs)))"
    by (auto simp: observed_fields_def)
  then show ?thesis
    by (simp only: all_fields_diff sorted_list_of_set_sort_remdups)
qed

lemma all_fields_tagged_two: "all_fields (observed_fields tagged_two) = fields_two"
  by (simp add: all_fields_observed fields_two_def base_fields_def tagged_two_def models_two_def
      dict_keys_def k_ID_def k_model_def k_price_def k_energy_def ascii_def)

lemma ascii_int_7: "ascii_int (ascii ''7'') = Some 7"
  by (simp add: ascii_int_def ascii_nat_def ascii_isdigit_def ascii_def)

lemma get_unique_ids_first_run: "get_unique_ids ascii_lib (makedirs first_run) = Inr [7]"
  by (simp add: get_unique_ids_def makedirs_def listing_def first_run_def reader_utf8_def
      dict_reader_def row_dict_def ascii_lib_def ascii_int_7)

lemma accepted_first_run: "accepted ascii_lib first_run 7 = tagged_two"
  by (simp add: accepted_def first_run_def fetch_data_flaky)

lemma scan_first_run: "scan ascii_lib first_run [7] = collect_all tagged_two"
  by (simp add: scan_collect_all accepted_first_run)

lemma all_data_tagged_two:
  "all_data (collect_all tagged_two) =
     [(e_electric, [tagged_two ! 0]), (e_fuel, [tagged_two ! 1])]"
  by (simp add: collect_all_def collect_model_def tagged_two_def models_two_def
      dict_get_default_def dict_get_def k_model_def k_price_def k_energy_def
      e_electric_def e_fuel_def)

text \<open>
  Claim C3. The column order computed from the accumulated records is the identity list
  \<open>ID\<close>, model, price, energy type, followed by the other observed field names in
  ascending order, each once; it depends only on the set of records, not on the order
  they arrived in; and in a run that writes, this one list, computed from the records of
  all identifiers, heads every file the run writes.
\<close>

theorem all_fields_deterministic:
  "all_fields (field_set (collect_all rs)) =
      [k_ID, k_model, k_price, k_energy]
      @ sorted_list_of_set (observed_fields rs - {k_ID, k_model, k_price, k_energy})
   \<and> sorted (sorted_list_of_set (observed_fields rs - {k_ID, k_model, k_price, k_energy}))
   \<and> distinct (sorted_list_of_set (observed_fields rs - {k_ID, k_model, k_price, k_energy}))
   \<and> set (sorted_list_of_set (observed_fields rs - {k_ID, k_model, k_price, k_energy}))
        = observed_fields rs - {k_ID, k_model, k_price, k_energy}
   \<and> (set rs' = set rs \<longrightarrow>
        all_fields (field_set (collect_all rs')) = all_fields (field_set (collect_all rs)))
   \<and> (get_unique_ids P (makedirs w) = Inr ids \<and> ids \<noteq> [] \<longrightarrow>
        scan P w ids = collect_all (concat (map (accepted P w) ids))
        \<and> (\<forall>b\<in>set (all_data (scan P w ids)). \<exists>rows.
              map_of (files (main P w)) (output_name (file_tag (fst b)))
                = Some (Some \<lparr>bom = True, table = all_fields (field_set (scan P w ids)) # rows\<rparr>)))"
proof (intro conjI impI)
  show "all_fields (field_set (collect_all rs)) =
      [k_ID, k_model, k_price, k_energy]
      @ sorted_list_of_set (observed_fields rs - {k_ID, k_model, k_price, k_energy})"
    by (simp add: field_set_collect_all all_fields_diff base_fields_def)
  have fin: "finite (observed_fields rs - {k_ID, k_model, k_price, k_energy})"
    by (simp add: finite_observed_fields)
  show "sorted (sorted_list_of_set (observed_fields rs - {k_ID, k_model, k_price, k_energy}))"
    by simp
  show "distinct (sorted_list_of_set (observed_fields rs - {k_ID, k_model, k_price, k_energy}))"
    by simp
  from fin show "set (sorted_list_of_set (observed_fields rs - {k_ID, k_model, k_price, k_energy}))
        = observed_fields rs - {k_ID, k_model, k_price, k_energy}"
    by simp
next
  assume "set rs' = set rs"
  then have "observed_fields rs' = observed_fields rs"
    by (simp add: observed_fields_def)
  then show "all_fields (field_set (collect_all rs')) = all_fields (field_set (collect_all rs))"
    by (simp add: field_set_collect_all)
next
  assume a: "get_unique_ids P (makedirs w) = Inr ids \<and> ids \<noteq> []"
  show "scan P w ids = collect_all (concat (map (accepted P w) ids))"
    by (rule scan_collect_all)
  show "\<forall>b\<in>set (all_data (scan P w ids)). \<exists>rows.
              map_of (files (main P w)) (output_name (file_tag (fst b)))
                = Some (Some \<lparr>bom = True, table = all_fields (field_set (scan P w ids)) # rows\<rparr>)"
  proof
    fix b assume "b \<in> set (all_data (scan P w ids))"
    then have "filter (\<lambda>c. output_name (file_tag (fst c)) = output_name (file_tag (fst b)))
                 (all_data (scan P w ids)) \<noteq> []"
      by (auto simp: filter_empty_conv)
    with a show "\<exists>rows.
              map_of (files (main P w)) (output_name (file_tag (fst b)))
                = Some (Some \<lparr>bom = True, table = all_fields (field_set (scan P w ids)) # rows\<rparr>)"
      by (simp add: main_files(1) write_all_lookup)
  qed
qed

theorem all_fields_deterministic_witness:
  "all_fields (field_set (collect_all tagged_two)) = fields_two
   \<and> all_fields (field_set (collect_all (rev tagged_two))) = fields_two
   \<and> get_unique_ids ascii_lib (makedirs first_run) = Inr [7]
   \<and> fst ` set (all_data (scan ascii_lib first_run [7])) = {e_electric, e_fuel}
   \<and> (\<exists>rows. map_of (files (main ascii_lib first_run)) (output_name (ascii ''electric''))
                = Some (Some \<lparr>bom = True, table = fields_two # rows\<rparr>))
   \<and> (\<exists>rows. map_of (files (main ascii_lib first_run)) (output_name (ascii ''fuel''))
                = Some (Some \<lparr>bom = True, table = fields_two # rows\<rparr>))"
proof -
  have f: "all_fields (field_set (collect_all tagged_two)) = fields_two"
    by (simp add: field_set_collect_all all_fields_tagged_two)
  have t: "file_tag e_electric = ascii ''electric''" "file_tag e_fuel = ascii ''fuel''"
    by (simp_all add: file_tag_def ENERGY_TYPES_def e_electric_def e_fuel_def)
  note inst = all_fields_deterministic [of tagged_two "rev tagged_two" ascii_lib first_run "[7]"]
  from inst have "all_fields (field_set (collect_all (rev tagged_two))) = fields_two"
    by (simp add: f)
  moreover have pre: "get_unique_ids ascii_lib (makedirs first_run) = Inr [7] \<and> [7::int] \<noteq> []"
    by (simp add: get_unique_ids_first_run)
  from inst have "\<forall>b\<in>set (all_data (scan ascii_lib first_run [7])). \<exists>rows.
      map_of (files (main ascii_lib first_run)) (output_name (file_tag (fst b)))
        = Some (Some \<lparr>bom = True, table = all_fields (field_set (scan ascii_lib first_run [7])) # rows\<rparr>)"
    using pre by blast
  then have "(\<exists>rows. map_of (files (main ascii_lib first_run)) (output_name (ascii ''electric''))
                = Some (Some \<lparr>bom = True, table = fields_two # rows\<rparr>))
   \<and> (\<exists>rows. map_of (files (main ascii_lib first_run)) (output_name (ascii ''fuel''))
                = Some (Some \<lparr>bom = True, table = fields_two # rows\<rparr>))"
    by (simp add: scan_first_run all_data_tagged_two f t)
  ultimately show ?thesis
    by (simp add: f get_unique_ids_first_run scan_first_run all_data_tagged_two)
qed

subsection \<open>Files that share the name \<open>car_data_unknown.csv\<close>\<close>

lemma parse_models_config_page_three:
  "parse_models_config ascii_lib page_three =
     Inr [[(k_model, ascii ''A''), (k_price, n_a), (k_energy, ascii ''H2'')],
          [(k_model, ascii ''B''), (k_price, n_a), (k_energy, ascii ''LPG'')],
          [(k_model, ascii ''C''), (k_price, n_a)]]"
  by (simp add: parse_models_config_def parse_steps_def page_three_def set_names_def
      set_prices_def set_sections_def set_row_def set_item_def seed_model_def strip_glyphs_def
      glyph_class_def normalize_model_def get_energy_specific_fields_def ENERGY_TYPE_MAP_def
      dict_get_default_def dict_get_def
      k_model_def k_price_def k_energy_def unknown_model_def n_a_def ascii_def
      e_electric_def e_fuel_def e_hybrid_def e_plugin_def e_extender_def)

lemma fetch_data_run_three:
  "snd (fst (fetch_data ascii_lib (transport run_three 7) 7)) = Some [record_A, record_B, record_C]"
  by (simp add: fetch_data_def attempts_list try_attempt_def run_three_def
      parse_models_config_page_three py_str_7)
    (simp add: record_A_def record_B_def record_C_def dict_get_def k_ID_def k_model_def
      k_price_def k_energy_def unknown_model_def n_a_def ascii_def)

lemma get_unique_ids_run_three: "get_unique_ids ascii_lib (makedirs run_three) = Inr [7]"
  by (simp add: get_unique_ids_def makedirs_def listing_def run_three_def reader_utf8_def
      dict_reader_def row_dict_def ascii_lib_def ascii_int_7)

lemma scan_run_three:
  "scan ascii_lib run_three [7] = collect_all [record_A, record_B, record_C]"
  by (simp add: scan_collect_all accepted_def fetch_data_run_three)

lemma all_data_run_three:
  "all_data (collect_all [record_A, record_B, record_C]) =
     [(ascii ''H2'', [record_A]), (ascii ''LPG'', [record_B]), (e_unknown, [record_C])]"
  by (simp add: collect_all_def collect_model_def record_A_def record_B_def record_C_def
      dict_get_default_def dict_get_def k_model_def k_price_def k_energy_def k_ID_def
      e_unknown_def ascii_def)

lemma all_fields_run_three:
  "all_fields (field_set (collect_all [record_A, record_B, record_C])) = base_fields"
  by (simp add: field_set_collect_all all_fields_observed record_A_def record_B_def
      record_C_def dict_keys_def base_fields_def)

lemma labels_run_three:
  "map_of ENERGY_TYPES (ascii ''H2'') = None" "map_of ENERGY_TYPES (ascii ''LPG'') = None"
  "map_of ENERGY_TYPES e_unknown = Some (ascii ''unknown'')"
  by (simp_all add: ENERGY_TYPES_def ascii_def e_electric_def e_fuel_def e_hybrid_def
      e_plugin_def e_extender_def e_unknown_def)

lemma output_name_unknown: "output_name (ascii ''unknown'') = ascii ''car_data_unknown.csv''"
  by (simp add: output_name_def ascii_def)

text \<open>
  Claim C9, as amended. In a run that writes, every bucket whose label is absent from
  \<open>ENERGY_TYPES\<close>, and the bucket \<open>e_unknown\<close> of the records without an energy
  type, is written to \<open>car_data_unknown.csv\<close>, each write replacing the file. So the file
  ends as the header and the rows of the last of these buckets, in the order the labels
  were first seen, and nothing of the earlier ones.
\<close>

theorem unknown_file_keeps_last_bucket:
  assumes "get_unique_ids P (makedirs w) = Inr ids" and "ids \<noteq> []"
    and "us = filter (\<lambda>b. map_of ENERGY_TYPES (fst b) = None \<or> fst b = e_unknown)
                (all_data (scan P w ids))"
    and "us \<noteq> []"
  shows "list_all (\<lambda>b. output_name (file_tag (fst b)) = ascii ''car_data_unknown.csv'') us
       \<and> map_of (files (main P w)) (ascii ''car_data_unknown.csv'') =
           Some (Some \<lparr>bom = True,
                  table = all_fields (field_set (scan P w ids))
                          # map (dict_row (all_fields (field_set (scan P w ids)))) (snd (last us))\<rparr>)"
proof -
  note n = output_name_unknown
  have p: "(\<lambda>b. output_name (file_tag (fst b)) = ascii ''car_data_unknown.csv'')
         = (\<lambda>b :: pystr \<times> pydict list. map_of ENERGY_TYPES (fst b) = None \<or> fst b = e_unknown)"
    by (simp add: n [symmetric] output_name_inj file_tag_unknown)
  have "list_all (\<lambda>b. output_name (file_tag (fst b)) = ascii ''car_data_unknown.csv'') us"
    unfolding p assms(3) by (simp add: list_all_iff)
  moreover have "map_of (files (main P w)) (ascii ''car_data_unknown.csv'') =
           Some (Some \<lparr>bom = True,
                  table = all_fields (field_set (scan P w ids))
                          # map (dict_row (all_fields (field_set (scan P w ids)))) (snd (last us))\<rparr>)"
    using assms(3,4) by (simp add: main_files(1) [OF assms(1,2)] write_all_lookup p)
  ultimately show ?thesis by simp
qed

theorem unknown_file_keeps_last_bucket_witness:
  "get_unique_ids ascii_lib (makedirs run_three) = Inr [7]
   \<and> all_data (scan ascii_lib run_three [7]) =
        [(ascii ''H2'', [record_A]), (ascii ''LPG'', [record_B]), (e_unknown, [record_C])]
   \<and> map_of (files (main ascii_lib run_three)) (ascii ''car_data_unknown.csv'') =
        Some (Some \<lparr>bom = True, table = [base_fields, dict_row base_fields record_C]\<rparr>)"
proof -
  have u: "filter (\<lambda>b. map_of ENERGY_TYPES (fst b) = None \<or> fst b = e_unknown)
             (all_data (scan ascii_lib run_three [7]))
           = [(ascii ''H2'', [record_A]), (ascii ''LPG'', [record_B]), (e_unknown, [record_C])]"
    by (simp add: scan_run_three all_data_run_three labels_run_three)
  from unknown_file_keeps_last_bucket [OF get_unique_ids_run_three _ u [symmetric]]
  show ?thesis
    by (simp add: get_unique_ids_run_three scan_run_three all_data_run_three all_fields_run_three)
qed

text \<open>
  Claim C9 as stated fails: \<open>H2\<close> and \<open>LPG\<close> are two labels absent from \<open>ENERGY_TYPES\<close>,
  and \<open>LPG\<close> is the last such bucket written; but the bucket of the record without an
  energy type is written after it to the same file, which ends with the row of record C
  only, and without the row of record B.
\<close>

theorem unknown_file_counterexample:
  "map_of ENERGY_TYPES (ascii ''H2'') = None
   \<and> map_of ENERGY_TYPES (ascii ''LPG'') = None
   \<and> ascii ''H2'' \<noteq> ascii ''LPG''
   \<and> all_data (scan ascii_lib run_three [7]) =
        [(ascii ''H2'', [record_A]), (ascii ''LPG'', [record_B]), (e_unknown, [record_C])]
   \<and> map_of ENERGY_TYPES e_unknown \<noteq> None
   \<and> map_of (files (main ascii_lib run_three)) (ascii ''car_data_unknown.csv'') =
        Some (Some \<lparr>bom = True, table = [base_fields, dict_row base_fields record_C]\<rparr>)
   \<and> dict_row base_fields record_B \<noteq> dict_row base_fields record_C"
proof -
  have "files (main ascii_lib run_three) =
          [(ascii ''car_data_unknown.csv'',
            Some \<lparr>bom = True, table = [base_fields, dict_row base_fields record_C]\<rparr>)]"
  proof -
    have l: "listing run_three = []"
      by (simp add: listing_def run_three_def)
    from main_files(1) [OF get_unique_ids_run_three] show ?thesis
      by (simp add: scan_run_three all_data_run_three all_fields_run_three write_all_def
          write_bucket_def file_tag_def labels_run_three l output_name_unknown)
  qed
  moreover have "dict_row base_fields record_B \<noteq> dict_row base_fields record_C"
    by (simp add: dict_row_def base_fields_def record_B_def record_C_def dict_get_default_def
        dict_get_def k_ID_def k_model_def k_price_def k_energy_def ascii_def)
  ultimately show ?thesis
    by (simp add: labels_run_three scan_run_three all_data_run_three) (simp add: ascii_def)
qed

subsection \<open>The ID set resolver\<close>

lemma for_each_append:
  "for_each body (xs @ ys) s =
     (case for_each body xs s of Inl e \<Rightarrow> Inl e | Inr s' \<Rightarrow> for_each body ys s')"
  by (induction xs arbitrary: s) (auto split: sum.splits)

lemma row_dict_no_key: "k \<notin> set fieldnames \<Longrightarrow> row_dict fieldnames row k = None"
proof -
  assume k: "k \<notin> set fieldnames"
  have "fst ` set (zip fieldnames (map PyStr row)) \<subseteq> set fieldnames"
    by (auto dest: set_zip_leftD)
  moreover have "fst ` set (map (\<lambda>k. (k, PyNone)) (drop (length row) fieldnames)) \<subseteq> set fieldnames"
    by (auto dest: in_set_dropD)
  ultimately have "k \<notin> fst ` set (rev (zip fieldnames (map PyStr row)
                  @ map (\<lambda>k. (k, PyNone)) (drop (length row) fieldnames)))"
    using k by (auto dest: set_zip_leftD in_set_dropD)
  then show ?thesis
    unfolding row_dict_def map_of_eq_None_iff .
qed

lemma done_ids_no_ID:
  "rows \<noteq> [] \<Longrightarrow> hd rows k_ID = None \<Longrightarrow> done_ids P rows = Inl KeyError"
  by (cases rows) simp_all

lemma subtract_file_no_ID:
  assumes "endswith fname (ascii ''.csv'')"
    and "reader_utf8 f = fieldnames # lines" and "k_ID \<notin> set fieldnames"
    and "\<exists>r\<in>set lines. r \<noteq> []"
  shows "subtract_file P (fname, Some f) unique_ids = Inl KeyError"
proof -
  let ?rows = "dict_reader (reader_utf8 f)"
  from assms(4) have ne: "filter (\<lambda>r. r \<noteq> []) lines \<noteq> []"
    by (simp add: filter_empty_conv)
  then have "?rows \<noteq> []"
    by (simp add: assms(2) dict_reader_def)
  moreover from ne have "hd ?rows k_ID = None"
    by (simp add: assms(2) dict_reader_def hd_map row_dict_no_key [OF assms(3)])
  ultimately have "done_ids P ?rows = Inl KeyError"
    by (rule done_ids_no_ID)
  with assms(1) show ?thesis
    by (simp add: subtract_file_def)
qed

lemma makedirs_existing: "out_dir w = Some entries \<Longrightarrow> makedirs w = w"
  by (simp add: makedirs_def listing_def)

lemma main_raised:
  "get_unique_ids P (makedirs w) = Inl e \<Longrightarrow>
     raised (main P w) = Some e \<and> requested (main P w) = [] \<and> files (main P w) = listing w"
  by (simp add: main_def)

text \<open>
  Claim C10. When the directory holds a \<open>.csv\<close> file that can be opened, whose field names
  do not include \<open>ID\<close> and which has a row, \<open>get_unique_ids\<close> does not skip the file: it
  raises, \<open>main\<close> ends with that exception and no identifier has been requested. The
  exception is \<open>KeyError\<close> whenever the manifest and the files listed before this one were
  read without an exception.
\<close>

theorem missing_ID_column_raises:
  assumes "out_dir w = Some (pre @ (fname, Some f) # post)"
    and "endswith fname (ascii ''.csv'')"
    and "reader_utf8 f = fieldnames # lines" and "k_ID \<notin> set fieldnames"
    and "\<exists>r\<in>set lines. r \<noteq> []"
  shows "(\<exists>e. get_unique_ids P w = Inl e \<and> raised (main P w) = Some e \<and> requested (main P w) = [])
       \<and> (\<forall>mf unique_ids remaining.
             manifest w = Some mf
             \<and> manifest_ids P (dict_reader (reader_utf8 mf)) {} = Inr unique_ids
             \<and> for_each (subtract_file P) pre unique_ids = Inr remaining \<longrightarrow>
             get_unique_ids P w = Inl KeyError \<and> raised (main P w) = Some KeyError
             \<and> requested (main P w) = [])"
proof -
  note m = makedirs_existing [OF assms(1)]
  have sub: "\<And>u. subtract_file P (fname, Some f) u = Inl KeyError"
    by (rule subtract_file_no_ID [OF assms(2-5)])
  have loop: "\<And>u. for_each (subtract_file P) (pre @ (fname, Some f) # post) u =
        (case for_each (subtract_file P) pre u of Inl e \<Rightarrow> Inl e | Inr u' \<Rightarrow> Inl KeyError)"
    by (simp add: for_each_append sub split: sum.splits)
  have "\<exists>e. get_unique_ids P w = Inl e"
    by (simp add: get_unique_ids_def assms(1) loop split: option.splits sum.splits)
  then obtain e where e: "get_unique_ids P w = Inl e" ..
  with main_raised [of P w e] m
  have 1: "\<exists>e. get_unique_ids P w = Inl e \<and> raised (main P w) = Some e \<and> requested (main P w) = []"
    by simp
  have 2: "get_unique_ids P w = Inl KeyError \<and> raised (main P w) = Some KeyError
             \<and> requested (main P w) = []"
    if "manifest w = Some mf
             \<and> manifest_ids P (dict_reader (reader_utf8 mf)) {} = Inr unique_ids
             \<and> for_each (subtract_file P) pre unique_ids = Inr remaining"
    for mf unique_ids remaining
  proof -
    from that have k: "get_unique_ids P w = Inl KeyError"
      by (simp add: get_unique_ids_def assms(1) loop)
    with main_raised [of P w KeyError] m show ?thesis by simp
  qed
  from 1 2 show ?thesis by blast
qed

theorem missing_ID_column_raises_witness:
  "get_unique_ids ascii_lib foreign_dir = Inl KeyError
   \<and> raised (main ascii_lib foreign_dir) = Some KeyError
   \<and> requested (main ascii_lib foreign_dir) = []"
proof -
  let ?f = "\<lparr>bom = False, table = [[ascii ''name'', ascii ''remark''], [ascii ''x'', ascii ''y'']]\<rparr>"
  have 1: "out_dir foreign_dir = Some ([] @ (ascii ''notes.csv'', Some ?f) # [])"
    by (simp add: foreign_dir_def)
  have 2: "endswith (ascii ''notes.csv'') (ascii ''.csv'')"
    by (simp add: endswith_def ascii_def)
  have 3: "reader_utf8 ?f = [ascii ''name'', ascii ''remark''] # [[ascii ''x'', ascii ''y'']]"
    by (simp add: reader_utf8_def)
  have 4: "k_ID \<notin> set [ascii ''name'', ascii ''remark'']"
    by (simp add: k_ID_def ascii_def)
  have 5: "\<exists>r\<in>set [[ascii ''x'', ascii ''y'']]. r \<noteq> []"
    by simp
  have 6: "manifest foreign_dir = Some \<lparr>bom = False, table = [[ascii ''id''], [ascii ''7'']]\<rparr>
     \<and> manifest_ids ascii_lib
          (dict_reader (reader_utf8 \<lparr>bom = False, table = [[ascii ''id''], [ascii ''7'']]\<rparr>)) {}
        = Inr {7}
     \<and> for_each (subtract_file ascii_lib) [] {7} = Inr {7}"
    by (simp add: foreign_dir_def reader_utf8_def dict_reader_def row_dict_def ascii_lib_def
        ascii_int_7)
  from missing_ID_column_raises [OF 1 2 3 4 5, of ascii_lib] 6 show ?thesis
    by blast
qed

subsection \<open>Reading back the files \<open>main\<close> wrote\<close>

lemma fs_write_entries: "set (fs_write name f dir) \<subseteq> insert (name, Some f) (set dir)"
  by (induction dir) auto

lemma fs_write_nonempty: "fs_write name f dir \<noteq> []"
  by (cases dir) auto

lemma write_all_nonempty: "bs \<noteq> [] \<Longrightarrow> write_all F bs dir \<noteq> []"
  by (cases bs rule: rev_cases) (simp_all add: write_all_snoc write_bucket_def fs_write_nonempty)

lemma write_all_entries:
  "e \<in> set (write_all F bs dir) \<Longrightarrow>
     e \<in> set dir \<or>
     (\<exists>b\<in>set bs. e = (output_name (file_tag (fst b)),
                        Some \<lparr>bom = True, table = F # map (dict_row F) (snd b)\<rparr>))"
proof (induction bs arbitrary: e rule: rev_induct)
  case Nil
  then show ?case by (simp add: write_all_def)
next
  case (snoc b bs)
  from snoc.prems fs_write_entries
  have "e = (output_name (file_tag (fst b)),
             Some \<lparr>bom = True, table = F # map (dict_row F) (snd b)\<rparr>)
        \<or> e \<in> set (write_all F bs dir)"
    by (fastforce simp: write_all_snoc write_bucket_def)
  then show ?case
  proof
    assume "e = (output_name (file_tag (fst b)),
             Some \<lparr>bom = True, table = F # map (dict_row F) (snd b)\<rparr>)"
    then show ?thesis by simp
  next
    assume "e \<in> set (write_all F bs dir)"
    from snoc.IH [OF this] show ?thesis by auto
  qed
qed

lemma bucket_append_nonempty:
  "\<forall>b\<in>set bs. snd b \<noteq> [] \<Longrightarrow> \<forall>b\<in>set (bucket_append energy model bs). snd b \<noteq> []"
  by (induction bs) auto

lemma foldl_collect_nonempty:
  "\<forall>b\<in>set (all_data c). snd b \<noteq> [] \<Longrightarrow>
     \<forall>b\<in>set (all_data (foldl collect_model c rs)). snd b \<noteq> []"
proof (induction rs arbitrary: c)
  case Nil
  then show ?case by simp
next
  case (Cons r rs)
  from Cons.prems have "\<forall>b\<in>set (all_data (collect_model c r)). snd b \<noteq> []"
    by (simp add: collect_model_def bucket_append_nonempty)
  from Cons.IH [OF this] show ?case by simp
qed

lemma buckets_nonempty: "b \<in> set (all_data (scan P w ids)) \<Longrightarrow> snd b \<noteq> []"
  using foldl_collect_nonempty [of "\<lparr>all_data = [], field_set = {}\<rparr>"]
  by (simp add: scan_collect_all collect_all_def)

lemma endswith_output_name: "endswith (output_name tag) (ascii ''.csv'')"
  by (simp add: endswith_def output_name_def)

lemma k_ID_not_sorted_rest: "k_ID \<notin> set (sorted_list_of_set {f \<in> fs. f \<notin> set base_fields})"
proof (cases "finite {f \<in> fs. f \<notin> set base_fields}")
  case True
  then show ?thesis by (simp add: base_fields_def)
next
  case False
  then show ?thesis by simp
qed

lemma written_header_lacks_ID:
  "\<exists>fieldnames. reader_utf8 \<lparr>bom = True, table = all_fields fs # rows\<rparr> = fieldnames # rows
      \<and> k_ID \<notin> set fieldnames"
proof -
  have "k_ID \<noteq> 0xFEFF # k_ID" by simp
  moreover have "k_ID \<notin> {k_model, k_price, k_energy}"
    by (simp add: k_ID_def k_model_def k_price_def k_energy_def ascii_def)
  ultimately show ?thesis
    using k_ID_not_sorted_rest [of fs]
    by (simp add: reader_utf8_def all_fields_def base_fields_def)
qed

lemma dict_row_nonempty: "dict_row (all_fields fs) r \<noteq> []"
  by (simp add: dict_row_def all_fields_def base_fields_def)

lemma subtract_written_file:
  assumes "recs \<noteq> []"
  shows "subtract_file P (output_name tag,
            Some \<lparr>bom = True, table = all_fields fs # map (dict_row (all_fields fs)) recs\<rparr>) u
         = Inl KeyError"
proof -
  from written_header_lacks_ID [of fs "map (dict_row (all_fields fs)) recs"]
  obtain fieldnames where
    h: "reader_utf8 \<lparr>bom = True, table = all_fields fs # map (dict_row (all_fields fs)) recs\<rparr>
          = fieldnames # map (dict_row (all_fields fs)) recs"
    and n: "k_ID \<notin> set fieldnames"
    by blast
  from assms have "\<exists>r\<in>set (map (dict_row (all_fields fs)) recs). r \<noteq> []"
    by (cases recs) (simp_all add: dict_row_nonempty)
  from subtract_file_no_ID [OF endswith_output_name h n this] show ?thesis .
qed

lemma get_unique_ids_manifest:
  "get_unique_ids P w = Inr ids \<Longrightarrow>
     \<exists>mf unique_ids. manifest w = Some mf
        \<and> manifest_ids P (dict_reader (reader_utf8 mf)) {} = Inr unique_ids"
  by (auto simp: get_unique_ids_def split: option.splits sum.splits)

text \<open>
  Claim C4, where the code fails. \<open>main\<close> writes every file with a byte-order mark, and
  \<open>get_unique_ids\<close> reads without removing it, so the first field name it sees is U+FEFF
  followed by \<open>ID\<close>, and no row has the key \<open>ID\<close>. After a run that started from an empty
  directory and wrote at least one record, resolving the identifiers again, with the same
  manifest and the directory the run left, raises \<open>KeyError\<close>: the next run ends there,
  before any request, instead of continuing with the identifiers that are not done.
\<close>

theorem resume_after_own_output_raises:
  assumes "get_unique_ids P (makedirs w) = Inr ids" and "ids \<noteq> []"
    and "all_data (scan P w ids) \<noteq> []"
    and "listing w = []"
    and "manifest w' = manifest w" and "out_dir w' = Some (files (main P w))"
  shows "get_unique_ids P w' = Inl KeyError
       \<and> raised (main P w') = Some KeyError \<and> requested (main P w') = []"
proof -
  let ?F = "all_fields (field_set (scan P w ids))"
  let ?dir = "write_all ?F (all_data (scan P w ids)) []"
  from main_files(1) [OF assms(1,2)] assms(4) have d: "files (main P w) = ?dir" by simp
  from write_all_nonempty [OF assms(3)] obtain e rest where er: "?dir = e # rest"
    by (cases ?dir) auto
  then have "e \<in> set ?dir" by simp
  from write_all_entries [OF this] obtain b where
    b: "b \<in> set (all_data (scan P w ids))" and
    e: "e = (output_name (file_tag (fst b)),
             Some \<lparr>bom = True, table = ?F # map (dict_row ?F) (snd b)\<rparr>)"
    by auto
  from buckets_nonempty [OF b] have s: "\<And>u. subtract_file P e u = Inl KeyError"
    unfolding e by (rule subtract_written_file)
  from get_unique_ids_manifest [OF assms(1)] obtain mf unique_ids where
    m: "manifest w = Some mf" "manifest_ids P (dict_reader (reader_utf8 mf)) {} = Inr unique_ids"
    by (auto simp: makedirs_def)
  have k: "get_unique_ids P w' = Inl KeyError"
    by (simp add: get_unique_ids_def assms(5,6) m d er s)
  from assms(6) have "makedirs w' = w'" by (rule makedirs_existing)
  with k main_raised [of P w' KeyError] show ?thesis by simp
qed

lemma ascii_int_8: "ascii_int (ascii ''8'') = Some 8"
  by (simp add: ascii_int_def ascii_nat_def ascii_isdigit_def ascii_def)

lemma get_unique_ids_resume_run: "get_unique_ids ascii_lib (makedirs resume_run) = Inr [7, 8]"
  by (simp add: get_unique_ids_def makedirs_def listing_def resume_run_def reader_utf8_def
      dict_reader_def row_dict_def ascii_lib_def ascii_int_7 ascii_int_8)

lemma fetch_data_8: "snd (fst (fetch_data ascii_lib always_raises 8)) = None"
  by (simp add: fetch_data_def attempts_list try_attempt_def always_raises_def)

lemma scan_resume_run: "scan ascii_lib resume_run [7, 8] = collect_all tagged_two"
  by (simp add: scan_collect_all accepted_def resume_run_def fetch_data_flaky fetch_data_8)

theorem resume_after_own_output_raises_witness:
  "get_unique_ids ascii_lib (makedirs resume_run) = Inr [7, 8]
   \<and> map fst (files (main ascii_lib resume_run))
        = [ascii ''car_data_electric.csv'', ascii ''car_data_fuel.csv'']
   \<and> get_unique_ids ascii_lib (resume_run\<lparr>out_dir := Some (files (main ascii_lib resume_run))\<rparr>)
        = Inl KeyError"
proof -
  have a: "all_data (scan ascii_lib resume_run [7, 8]) \<noteq> []"
    by (simp add: scan_resume_run all_data_tagged_two)
  have l: "listing resume_run = []"
    by (simp add: listing_def resume_run_def)
  have n: "map fst (files (main ascii_lib resume_run))
        = [ascii ''car_data_electric.csv'', ascii ''car_data_fuel.csv'']"
    using main_files(1) [OF get_unique_ids_resume_run]
    by (simp add: l scan_resume_run all_data_tagged_two write_all_def write_bucket_def
        file_tag_def ENERGY_TYPES_def output_name_def e_electric_def e_fuel_def ascii_def)
  from resume_after_own_output_raises [OF get_unique_ids_resume_run _ a l,
      of "resume_run\<lparr>out_dir := Some (files (main ascii_lib resume_run))\<rparr>"]
  show ?thesis
    by (simp add: get_unique_ids_resume_run n)
qed

subsection \<open>Where the resolver does compute the difference\<close>

text \<open>
  For comparison: when every \<open>.csv\<close> file of the directory is read with a field \<open>ID\<close> in
  each row, holding \<open>str(d)\<close> of an identifier that \<open>isdigit\<close> accepts and \<open>int\<close> reads
  back (for the builtins: \<open>d\<close> is not negative), the result is the sorted difference of
  the manifest's identifiers and the identifiers of the rows, however they are spread
  over the files.
\<close>

lemma done_ids_records:
  assumes "list_all2 (\<lambda>row d. row k_ID = Some (PyStr (py_str d))) rows ds"
    and "\<forall>d\<in>set ds. str_isdigit P (py_str d) \<and> str_to_int P (py_str d) = Some d"
  shows "done_ids P rows = Inr (set ds)"
  using assms by (induction rows ds rule: list_all2_induct) auto

lemma subtract_files_difference:
  assumes "list_all2 (\<lambda>entry ds.
              if endswith (fst entry) (ascii ''.csv'')
              then \<exists>f. snd entry = Some f
                     \<and> list_all2 (\<lambda>row d. row k_ID = Some (PyStr (py_str d)))
                          (dict_reader (reader_utf8 f)) ds
              else ds = []) entries dss"
    and "\<forall>d\<in>set (concat dss). str_isdigit P (py_str d) \<and> str_to_int P (py_str d) = Some d"
  shows "for_each (subtract_file P) entries unique_ids = Inr (unique_ids - set (concat dss))"
  using assms
proof (induction entries dss arbitrary: unique_ids rule: list_all2_induct)
  case Nil
  then show ?case by simp
next
  case (Cons entry entries ds dss)
  have "subtract_file P entry unique_ids = Inr (unique_ids - set ds)"
  proof (cases "endswith (fst entry) (ascii ''.csv'')")
    case True
    with Cons.hyps(1) obtain f where f: "snd entry = Some f"
      and r: "list_all2 (\<lambda>row d. row k_ID = Some (PyStr (py_str d)))
                (dict_reader (reader_utf8 f)) ds"
      by auto
    from Cons.prems have "\<forall>d\<in>set ds. str_isdigit P (py_str d) \<and> str_to_int P (py_str d) = Some d"
      by simp
    from done_ids_records [OF r this] True f show ?thesis
      by (cases entry) (simp add: subtract_file_def)
  next
    case False
    with Cons.hyps(1) show ?thesis
      by (cases entry) (simp add: subtract_file_def)
  qed
  moreover from Cons.prems
  have "for_each (subtract_file P) entries (unique_ids - set ds)
          = Inr (unique_ids - set ds - set (concat dss))"
    by (intro Cons.IH) simp
  ultimately show ?case
    by (simp add: Diff_eq Int_assoc) 
qed

lemma get_unique_ids_difference:
  assumes "manifest w = Some mf"
    and "manifest_ids P (dict_reader (reader_utf8 mf)) {} = Inr M"
    and "out_dir w = Some entries"
    and "list_all2 (\<lambda>entry ds.
              if endswith (fst entry) (ascii ''.csv'')
              then \<exists>f. snd entry = Some f
                     \<and> list_all2 (\<lambda>row d. row k_ID = Some (PyStr (py_str d)))
                          (dict_reader (reader_utf8 f)) ds
              else ds = []) entries dss"
    and "\<forall>d\<in>set (concat dss). str_isdigit P (py_str d) \<and> str_to_int P (py_str d) = Some d"
  shows "get_unique_ids P w = Inr (sorted_list_of_set (M - set (concat dss)))"
  by (simp add: get_unique_ids_def assms(1-3) subtract_files_difference [OF assms(4,5)])

end
